theory Spec2Isabelle
  imports Complex_Main "HOL-Library.Multiset"
begin

section \<open>JavaScript strings and the string built-ins the dashboard calls\<close>

text \<open>
  A JavaScript string is a sequence of UTF-16 code units; every character the dashboard
  tests for lies in the Basic Multilingual Plane and is one code unit. \<open>js\<close> embeds an
  ASCII literal.
\<close>

type_synonym jsstring = "nat list"

definition js :: "string \<Rightarrow> jsstring" where
  "js s = map of_char s"

definition space :: nat where "space = 0x20"
definition danda :: nat where "danda = 0x964"
definition doubleDanda :: nat where "doubleDanda = 0x965"
definition anusvara :: nat where "anusvara = 0x902"
definition visarga :: nat where "visarga = 0x903"
definition letterMa :: nat where "letterMa = 0x92E"
definition virama :: nat where "virama = 0x94D"

text \<open>The class \<^verbatim>\<open>\s\<close> of a regular expression, which is also what \<^verbatim>\<open>trim\<close> strips:
  the WhiteSpace and LineTerminator code points of ECMAScript.\<close>

definition isWhiteSpace :: "nat \<Rightarrow> bool" where
  "isWhiteSpace c \<longleftrightarrow>
     c = 0x09 \<or> c = 0x0A \<or> c = 0x0B \<or> c = 0x0C \<or> c = 0x0D \<or> c = 0x20 \<or> c = 0xA0 \<or>
     c = 0x1680 \<or> (0x2000 \<le> c \<and> c \<le> 0x200A) \<or> c = 0x2028 \<or> c = 0x2029 \<or>
     c = 0x202F \<or> c = 0x205F \<or> c = 0x3000 \<or> c = 0xFEFF"

text \<open>\<^verbatim>\<open>\d\<close> (ASCII digits only, the expressions carry no \<^verbatim>\<open>u\<close> flag) and the
  Devanagari digits U+0966 .. U+096F.\<close>

definition isAsciiDigit :: "nat \<Rightarrow> bool" where
  "isAsciiDigit c \<longleftrightarrow> 0x30 \<le> c \<and> c \<le> 0x39"

definition isDevanagariDigit :: "nat \<Rightarrow> bool" where
  "isDevanagariDigit c \<longleftrightarrow> 0x966 \<le> c \<and> c \<le> 0x96F"

text \<open>\<^verbatim>\<open>s.replace(/c/g, rep)\<close> for a one-unit pattern \<open>c\<close> and a replacement without
  \<^verbatim>\<open>$\<close> patterns.\<close>

definition replaceAll :: "nat \<Rightarrow> jsstring \<Rightarrow> jsstring \<Rightarrow> jsstring" where
  "replaceAll c rep s = concat (map (\<lambda>x. if x = c then rep else [x]) s)"

text \<open>\<^verbatim>\<open>s.replace(/\s+/g, ' ')\<close>: every maximal run of white space becomes one space.\<close>

function collapseWhiteSpace :: "jsstring \<Rightarrow> jsstring" where
  "collapseWhiteSpace [] = []"
| "collapseWhiteSpace (c # cs) =
     (if isWhiteSpace c then space # collapseWhiteSpace (dropWhile isWhiteSpace cs)
      else c # collapseWhiteSpace cs)"
  by pat_completeness auto
termination
  by (relation "measure length") (auto simp: length_dropWhile_le less_Suc_eq_le)

definition trim :: "jsstring \<Rightarrow> jsstring" where
  "trim s = rev (dropWhile isWhiteSpace (rev (dropWhile isWhiteSpace s)))"

text \<open>\<^verbatim>\<open>s.split(sep)\<close> for a one-unit separator: the empty string splits into one empty
  piece.\<close>

fun split :: "nat \<Rightarrow> jsstring \<Rightarrow> jsstring list" where
  "split sep [] = [[]]"
| "split sep (c # cs) =
     (if c = sep then [] # split sep cs
      else (case split sep cs of [] \<Rightarrow> [[c]] | w # ws \<Rightarrow> (c # w) # ws))"

text \<open>\<^verbatim>\<open>pieces.join(' ')\<close>.\<close>

fun joinSpace :: "jsstring list \<Rightarrow> jsstring" where
  "joinSpace [] = []"
| "joinSpace [w] = w"
| "joinSpace (w # ws) = w @ space # joinSpace ws"

section \<open>The diff engine (dashboard.js)\<close>

subsection \<open>tokenize\<close>

text \<open>The arrow function \<^verbatim>\<open>tokenize\<close> of \<^verbatim>\<open>computeDiff\<close>: both dandas are isolated by
  spaces, white space is collapsed, the text is trimmed and split at spaces, and empty
  pieces are dropped.\<close>

definition tokenize :: "jsstring \<Rightarrow> jsstring list" where
  "tokenize text =
     filter (\<lambda>t. length t > 0)
       (split space
         (trim
           (collapseWhiteSpace
             (replaceAll doubleDanda [space, doubleDanda, space]
               (replaceAll danda [space, danda, space] text)))))"

subsection \<open>normalizeWord\<close>

text \<open>
  \<^verbatim>\<open>String.prototype.toLowerCase\<close> is a built-in of the host; its case table is no part
  of the repository, so the model takes it as the parameter \<open>toLowerCase\<close>.
\<close>

definition removeDandasAndNumbers :: "jsstring \<Rightarrow> jsstring" where
  "removeDandasAndNumbers s =
     filter (\<lambda>c. \<not> (c = danda \<or> c = doubleDanda \<or> isAsciiDigit c \<or> isDevanagariDigit c)) s"

definition anusvaraToMa :: "jsstring \<Rightarrow> jsstring" where
  "anusvaraToMa s = replaceAll anusvara [letterMa, virama] s"

definition removeVisarga :: "jsstring \<Rightarrow> jsstring" where
  "removeVisarga s = replaceAll visarga [] s"

definition normalizeWord :: "(jsstring \<Rightarrow> jsstring) \<Rightarrow> jsstring \<Rightarrow> jsstring" where
  "normalizeWord toLowerCase word =
     (if word = [] then []
      else toLowerCase (trim (removeVisarga (anusvaraToMa (removeDandasAndNumbers word)))))"

text \<open>
  What the properties of \<open>normalizeWord\<close> need of the host's \<^verbatim>\<open>toLowerCase\<close>.
  \<open>caseStable\<close>: lower-casing twice is lower-casing once, and the lower-case form of a
  string that has no danda, digit, anusvara or visarga and no white space at either end
  is again such a string. \<open>caseMapping\<close>: moreover it maps the empty string to itself
  and commutes with trimming and with the three replacements (it neither makes nor
  removes white space, dandas, digits, anusvara or visarga, and leaves the letters of the
  anusvara replacement alone).
\<close>

definition caseStable :: "(jsstring \<Rightarrow> jsstring) \<Rightarrow> bool" where
  "caseStable toLowerCase \<longleftrightarrow>
     (\<forall>s. toLowerCase (toLowerCase s) = toLowerCase s) \<and>
     (\<forall>s. trim (removeVisarga (anusvaraToMa (removeDandasAndNumbers s))) = s \<longrightarrow>
          trim (removeVisarga (anusvaraToMa (removeDandasAndNumbers (toLowerCase s))))
            = toLowerCase s)"

definition caseMapping :: "(jsstring \<Rightarrow> jsstring) \<Rightarrow> bool" where
  "caseMapping toLowerCase \<longleftrightarrow>
     toLowerCase [] = [] \<and>
     (\<forall>s. toLowerCase (toLowerCase s) = toLowerCase s) \<and>
     (\<forall>s. toLowerCase (trim s) = trim (toLowerCase s)) \<and>
     (\<forall>s. toLowerCase (removeVisarga (anusvaraToMa (removeDandasAndNumbers s)))
            = removeVisarga (anusvaraToMa (removeDandasAndNumbers (toLowerCase s))))"

text \<open>\<open>commutesAt\<close>: on the string \<open>s\<close>, lower-casing before the replacements and the
  trimming of \<open>normalizeWord\<close> gives what lower-casing after them gives.\<close>

definition commutesAt :: "(jsstring \<Rightarrow> jsstring) \<Rightarrow> jsstring \<Rightarrow> bool" where
  "commutesAt toLowerCase s \<longleftrightarrow>
     toLowerCase (trim (removeVisarga (anusvaraToMa (removeDandasAndNumbers s))))
       = trim (removeVisarga (anusvaraToMa (removeDandasAndNumbers (toLowerCase s))))"

subsection \<open>The highlighting callbacks\<close>

text \<open>The test that all four \<^verbatim>\<open>map\<close> callbacks start with: the word is one of the two
  dandas (\<^verbatim>\<open>includes\<close>), or it matches \<^verbatim>\<open>/^[D0-9]+$/\<close>, where \<^verbatim>\<open>D\<close> stands for the range
  of the Devanagari digits.\<close>

definition isDandaOrNumber :: "jsstring \<Rightarrow> bool" where
  "isDandaOrNumber word \<longleftrightarrow>
     word = [danda] \<or> word = [doubleDanda] \<or>
     (word \<noteq> [] \<and> list_all (\<lambda>c. isDevanagariDigit c \<or> isAsciiDigit c) word)"

definition spanMatch :: "jsstring \<Rightarrow> jsstring" where
  "spanMatch word = js ''<span class='' @ [0x22] @ js ''diff-match'' @ [0x22] @ js ''>'' @ word @ js ''</span>''"

definition spanDifferent :: "jsstring \<Rightarrow> jsstring" where
  "spanDifferent word = js ''<span class='' @ [0x22] @ js ''diff-different'' @ [0x22] @ js ''>'' @ word @ js ''</span>''"

text \<open>The callback of the three maps that test membership in a set of normalized words.\<close>

definition highlightBySet :: "(jsstring \<Rightarrow> jsstring) \<Rightarrow> jsstring set \<Rightarrow> jsstring \<Rightarrow> jsstring" where
  "highlightBySet toLowerCase wordSet word =
     (if isDandaOrNumber word then word
      else if normalizeWord toLowerCase word \<in> wordSet then spanMatch word
      else spanDifferent word)"

text \<open>The callback of the source map of \<^verbatim>\<open>diffWithAlignment\<close>, which tests the index.\<close>

definition highlightByPosition :: "nat set \<Rightarrow> nat \<times> jsstring \<Rightarrow> jsstring" where
  "highlightByPosition sourceMatchedPositions iw =
     (case iw of (idx, word) \<Rightarrow>
       if isDandaOrNumber word then word
       else if idx \<in> sourceMatchedPositions then spanMatch word
       else spanDifferent word)"

text \<open>\<^verbatim>\<open>new Set(words.map(w => this.normalizeWord(w)).filter(w => w.length > 0))\<close>.\<close>

definition normalizedWordSet :: "(jsstring \<Rightarrow> jsstring) \<Rightarrow> jsstring list \<Rightarrow> jsstring set" where
  "normalizedWordSet toLowerCase ws =
     set (filter (\<lambda>w. length w > 0) (map (normalizeWord toLowerCase) ws))"

subsection \<open>diffWithLCS and diffWithAlignment\<close>

record diffResult =
  sourceHtml :: jsstring
  targetHtml :: jsstring

text \<open>The arrays that \<^verbatim>\<open>diffWithLCS\<close> joins with spaces.\<close>

definition lcsSourceSpans :: "(jsstring \<Rightarrow> jsstring) \<Rightarrow> jsstring list \<Rightarrow> jsstring list \<Rightarrow> jsstring list" where
  "lcsSourceSpans toLowerCase sourceWords targetWords =
     map (highlightBySet toLowerCase (normalizedWordSet toLowerCase targetWords)) sourceWords"

definition lcsTargetSpans :: "(jsstring \<Rightarrow> jsstring) \<Rightarrow> jsstring list \<Rightarrow> jsstring list \<Rightarrow> jsstring list" where
  "lcsTargetSpans toLowerCase sourceWords targetWords =
     map (highlightBySet toLowerCase (normalizedWordSet toLowerCase sourceWords)) targetWords"

definition diffWithLCS :: "(jsstring \<Rightarrow> jsstring) \<Rightarrow> jsstring list \<Rightarrow> jsstring list \<Rightarrow> diffResult" where
  "diffWithLCS toLowerCase sourceWords targetWords =
     \<lparr> sourceHtml = joinSpace (lcsSourceSpans toLowerCase sourceWords targetWords),
       targetHtml = joinSpace (lcsTargetSpans toLowerCase sourceWords targetWords) \<rparr>"

text \<open>The alignment object of \<^verbatim>\<open>shloka.metadata.alignment\<close>. A field is \<open>None\<close> when the
  JSON leaves it out; an array, also an empty one, is truthy.\<close>

record alignment =
  source_words :: "jsstring list option"
  target_words :: "jsstring list option"
  matched_positions :: "nat list option"
  source_matched_positions :: "nat list option"

text \<open>\<^verbatim>\<open>alignment.source_matched_positions || alignment.matched_positions || []\<close>.\<close>

definition sourceMatchedPositions :: "alignment \<Rightarrow> nat set" where
  "sourceMatchedPositions al =
     (case source_matched_positions al of
        Some ps \<Rightarrow> set ps
      | None \<Rightarrow> (case matched_positions al of Some ps \<Rightarrow> set ps | None \<Rightarrow> {}))"

definition alignedSourceSpans :: "jsstring list \<Rightarrow> alignment \<Rightarrow> jsstring list" where
  "alignedSourceSpans sourceWords al =
     map (highlightByPosition (sourceMatchedPositions al)) (enumerate 0 sourceWords)"

definition alignedTargetSpans :: "(jsstring \<Rightarrow> jsstring) \<Rightarrow> jsstring list \<Rightarrow> jsstring list \<Rightarrow> alignment \<Rightarrow> jsstring list" where
  "alignedTargetSpans toLowerCase sourceWords targetWords al =
     map (highlightBySet toLowerCase
            (normalizedWordSet toLowerCase
               (case source_words al of Some ws \<Rightarrow> ws | None \<Rightarrow> sourceWords)))
         targetWords"

definition diffWithAlignment :: "(jsstring \<Rightarrow> jsstring) \<Rightarrow> jsstring list \<Rightarrow> jsstring list \<Rightarrow> alignment \<Rightarrow> diffResult" where
  "diffWithAlignment toLowerCase sourceWords targetWords al =
     \<lparr> sourceHtml = joinSpace (alignedSourceSpans sourceWords al),
       targetHtml = joinSpace (alignedTargetSpans toLowerCase sourceWords targetWords al) \<rparr>"

subsection \<open>The verse record and computeDiff\<close>

text \<open>
  One record of the book's JSON array, with the fields the modelled functions read. A
  field is \<open>None\<close> when the JSON object leaves it out. Identifiers, names and texts are
  strings; \<^verbatim>\<open>book\<close>, \<^verbatim>\<open>chapter\<close> (the field \<open>chapter_number\<close>) and \<^verbatim>\<open>verse\<close> are whole
  numbers, of a size below \<open>2 ^ 53\<close>, where a double is the whole number it stands for,
  its arithmetic is exact and \<^verbatim>\<open>String\<close> prints its decimal digits; \<^verbatim>\<open>similarity\<close> is a
  number (the rational that the double stands for); the flags are booleans; \<^verbatim>\<open>id\<close> is
  the field \<open>source_id\<close>.
\<close>

record metadata =
  alignment :: "alignment option"

record shloka =
  source_id :: "jsstring option"
  book :: "int option"
  chapter_number :: "int option"
  verse :: "int option"
  parva_id :: "jsstring option"
  parva_name :: "jsstring option"
  upaparva_id :: "jsstring option"
  upaparva_name :: "jsstring option"
  adhyaya_id :: "jsstring option"
  adhyaya_name :: "jsstring option"
  source_text :: "jsstring option"
  has_match :: "bool option"
  similarity :: "rat option"
  match_corpus :: "jsstring option"
  matched_target_text :: "jsstring option"
  many_to_one :: "bool option"
  one_to_many :: "bool option"
  metadata :: "metadata option"

text \<open>\<^verbatim>\<open>x || dflt\<close> on an optional string, number or boolean: the empty string, zero,
  \<^verbatim>\<open>false\<close> and a missing field are falsy.\<close>

definition truthyString :: "jsstring option \<Rightarrow> bool" where
  "truthyString x \<longleftrightarrow> (case x of None \<Rightarrow> False | Some s \<Rightarrow> s \<noteq> [])"


definition truthyBool :: "bool option \<Rightarrow> bool" where
  "truthyBool x \<longleftrightarrow> (case x of None \<Rightarrow> False | Some b \<Rightarrow> b)"

definition stringOr :: "jsstring option \<Rightarrow> jsstring \<Rightarrow> jsstring" where
  "stringOr x dflt = (case x of None \<Rightarrow> dflt | Some s \<Rightarrow> if s = [] then dflt else s)"

definition numberOr :: "int option \<Rightarrow> int \<Rightarrow> int" where
  "numberOr x dflt = (case x of None \<Rightarrow> dflt | Some n \<Rightarrow> if n = 0 then dflt else n)"

text \<open>\<^verbatim>\<open>shloka.metadata?.alignment\<close>.\<close>

definition metadataAlignment :: "shloka \<Rightarrow> alignment option" where
  "metadataAlignment sh = (case metadata sh of None \<Rightarrow> None | Some m \<Rightarrow> alignment m)"

definition computeDiff :: "(jsstring \<Rightarrow> jsstring) \<Rightarrow> shloka \<Rightarrow> diffResult" where
  "computeDiff toLowerCase sh =
     (let sourceText = stringOr (source_text sh) [];
          targetText = stringOr (matched_target_text sh) [];
          sourceWords = tokenize sourceText;
          targetWords = tokenize targetText
      in case metadataAlignment sh of
           Some al \<Rightarrow>
             if target_words al \<noteq> None \<and> matched_positions al \<noteq> None
             then diffWithAlignment toLowerCase sourceWords targetWords al
             else diffWithLCS toLowerCase sourceWords targetWords
         | None \<Rightarrow> diffWithLCS toLowerCase sourceWords targetWords)"

text \<open>The empty JSON object \<^verbatim>\<open>{}\<close>: every field is missing.\<close>

definition blankShloka :: shloka where
  "blankShloka =
     \<lparr> source_id = None, book = None, chapter_number = None, verse = None,
       parva_id = None, parva_name = None, upaparva_id = None, upaparva_name = None,
       adhyaya_id = None, adhyaya_name = None, source_text = None, has_match = None,
       similarity = None, match_corpus = None, matched_target_text = None,
       many_to_one = None, one_to_many = None, metadata = None \<rparr>"

text \<open>A case table for the concrete runs below: it lower-cases the ASCII letters and
  leaves every other code unit alone (Devanagari has no case).\<close>

definition asciiLower :: "jsstring \<Rightarrow> jsstring" where
  "asciiLower s = map (\<lambda>c. if 0x41 \<le> c \<and> c \<le> 0x5A then c + 0x20 else c) s"

text \<open>
  The host's \<^verbatim>\<open>toLowerCase\<close> on Basic Latin and Greek. It follows the Unicode case
  tables, and these map the capital sigma U+03A3 by its context (\<^verbatim>\<open>Final_Sigma\<close> of
  \<^verbatim>\<open>SpecialCasing.txt\<close>): to the final sigma U+03C2 when a cased letter comes before it
  and none comes after it, code units that casing ignores apart, and to U+03C3 otherwise.
  \<open>greekLowerCase\<close> is that function on the strings made of the ASCII letters and
  digits, the space, and the Greek letters U+0391 .. U+03A9 and U+03B1 .. U+03C9: none
  of these units is ignored by casing, so the context is the unit before and the unit
  after. \<open>lowerFrom prev\<close> lower-cases the rest of a string, \<open>prev\<close> telling whether the unit
  before it is a cased letter.
\<close>

definition isCasedLetter :: "nat \<Rightarrow> bool" where
  "isCasedLetter c \<longleftrightarrow>
     (0x41 \<le> c \<and> c \<le> 0x5A) \<or> (0x61 \<le> c \<and> c \<le> 0x7A) \<or>
     (0x391 \<le> c \<and> c \<le> 0x3A9 \<and> c \<noteq> 0x3A2) \<or> (0x3B1 \<le> c \<and> c \<le> 0x3C9)"

definition lowerUnit :: "nat \<Rightarrow> nat" where
  "lowerUnit c =
     (if (0x41 \<le> c \<and> c \<le> 0x5A) \<or> (0x391 \<le> c \<and> c \<le> 0x3A9 \<and> c \<noteq> 0x3A2) then c + 0x20 else c)"

fun lowerFrom :: "bool \<Rightarrow> jsstring \<Rightarrow> jsstring" where
  "lowerFrom prev [] = []"
| "lowerFrom prev (c # cs) =
     (if c = 0x3A3
      then (if prev \<and> \<not> (cs \<noteq> [] \<and> isCasedLetter (hd cs)) then 0x3C2 else 0x3C3)
      else lowerUnit c) # lowerFrom (isCasedLetter c) cs"

definition greekLowerCase :: "jsstring \<Rightarrow> jsstring" where
  "greekLowerCase s = lowerFrom False s"

subsection \<open>A one-pass reading of tokenize\<close>

text \<open>
  Used in the proofs only: \<open>scanTokens\<close> reads the text once, from left to right, with
  the word under construction in \<open>cur\<close>. White space ends the word, a danda ends the word
  and is a token of its own. \<open>tokenize_scanTokens\<close> below proves that the chain of
  replacements of \<open>tokenize\<close> computes the same list.
\<close>

definition flush :: "jsstring \<Rightarrow> jsstring list" where
  "flush cur = (if cur = [] then [] else [cur])"

fun scanBy :: "(nat \<Rightarrow> bool) \<Rightarrow> jsstring \<Rightarrow> jsstring \<Rightarrow> jsstring list" where
  "scanBy sep cur [] = flush cur"
| "scanBy sep cur (c # cs) =
     (if sep c then flush cur @ scanBy sep [] cs else scanBy sep (cur @ [c]) cs)"

fun scanTokens :: "jsstring \<Rightarrow> jsstring \<Rightarrow> jsstring list" where
  "scanTokens cur [] = flush cur"
| "scanTokens cur (c # cs) =
     (if isWhiteSpace c then flush cur @ scanTokens [] cs
      else if c = danda \<or> c = doubleDanda then flush cur @ [c] # scanTokens [] cs
      else scanTokens (cur @ [c]) cs)"

definition plainWord :: "jsstring \<Rightarrow> bool" where
  "plainWord w \<longleftrightarrow> list_all (\<lambda>c. \<not> isWhiteSpace c \<and> c \<noteq> danda \<and> c \<noteq> doubleDanda) w"

definition isToken :: "jsstring \<Rightarrow> bool" where
  "isToken w \<longleftrightarrow> w = [danda] \<or> w = [doubleDanda] \<or> (w \<noteq> [] \<and> plainWord w)"

text \<open>Used in the proofs only: the code units that \<open>normalizeWord\<close> deletes or replaces.\<close>

definition isMark :: "nat \<Rightarrow> bool" where
  "isMark c \<longleftrightarrow> c = danda \<or> c = doubleDanda \<or> isAsciiDigit c \<or> isDevanagariDigit c
                 \<or> c = anusvara \<or> c = visarga"

text \<open>Used in the proofs only: what a code unit \<open>b\<close> of the lower-case form has in common
  with the unit \<open>a\<close> it stands for, and that lower-casing leaves \<open>b\<close> alone.\<close>

definition lowered :: "nat \<Rightarrow> nat \<Rightarrow> bool" where
  "lowered a b \<longleftrightarrow> (isMark b = isMark a) \<and> (isWhiteSpace b = isWhiteSpace a)
      \<and> b \<noteq> 0x3A3 \<and> lowerUnit b = b"

section \<open>The hierarchy builder (paths.js)\<close>

subsection \<open>Numbers as strings\<close>

text \<open>\<^verbatim>\<open>String(n)\<close> for a whole number \<open>n\<close> (below 10^21 in size, where JavaScript prints
  all digits): the decimal digits, after a minus sign when \<open>n\<close> is negative.\<close>

function decimal :: "nat \<Rightarrow> jsstring" where
  "decimal n = (if n < 10 then [0x30 + n] else decimal (n div 10) @ [0x30 + n mod 10])"
  by pat_completeness auto
termination
  by (relation "measure id") auto

declare decimal.simps [simp del]

definition numberToString :: "int \<Rightarrow> jsstring" where
  "numberToString n = (if n < 0 then 0x2D # decimal (nat (- n)) else decimal (nat n))"

text \<open>\<^verbatim>\<open>s.padStart(n, '0')\<close>.\<close>

definition padStart :: "nat \<Rightarrow> jsstring \<Rightarrow> jsstring" where
  "padStart n s = replicate (n - length s) 0x30 @ s"

text \<open>\<^verbatim>\<open>s || dflt\<close> on a string.\<close>

definition orString :: "jsstring \<Rightarrow> jsstring \<Rightarrow> jsstring" where
  "orString s dflt = (if s = [] then dflt else s)"

subsection \<open>parseSrirangaHierarchy\<close>

record parsedHierarchy =
  bookNumber :: int
  parva :: jsstring
  parvaName :: jsstring
  upaparva :: jsstring
  upaparvaName :: jsstring
  adhyaya :: jsstring
  adhyayaName :: jsstring
  verseNumeric :: int

text \<open>\<^verbatim>\<open>shloka.parva_id && shloka.upaparva_id && shloka.adhyaya_id\<close>.\<close>

definition hasHierarchyIds :: "shloka \<Rightarrow> bool" where
  "hasHierarchyIds sh \<longleftrightarrow>
     truthyString (parva_id sh) \<and> truthyString (upaparva_id sh) \<and> truthyString (adhyaya_id sh)"

definition parseSrirangaHierarchy :: "shloka \<Rightarrow> parsedHierarchy" where
  "parseSrirangaHierarchy sh =
     (if hasHierarchyIds sh then
        \<lparr> bookNumber = numberOr (book sh) 1,
          parva = stringOr (parva_id sh) [],
          parvaName = stringOr (parva_name sh) (stringOr (parva_id sh) []),
          upaparva = stringOr (upaparva_id sh) [],
          upaparvaName = stringOr (upaparva_name sh) (stringOr (upaparva_id sh) []),
          adhyaya = stringOr (adhyaya_id sh) [],
          adhyayaName = stringOr (adhyaya_name sh) (stringOr (adhyaya_id sh) []),
          verseNumeric = numberOr (verse sh) 0 \<rparr>
      else
        (let chapter = numberOr (chapter_number sh) 0 in
         \<lparr> bookNumber = numberOr (book sh) 1,
           parva = js ''P01'',
           parvaName = js ''Adi Parva'',
           upaparva = js ''U'' @ padStart 2 (numberToString ((chapter - 1) div 10 + 1)),
           upaparvaName = js ''Upaparva '' @ numberToString ((chapter - 1) div 10 + 1),
           adhyaya = js ''A'' @ padStart 3 (numberToString chapter),
           adhyayaName = js ''Adhyaya '' @ numberToString chapter,
           verseNumeric = numberOr (verse sh) 0 \<rparr>))"

subsection \<open>Plain objects as dictionaries\<close>

text \<open>
  \<^verbatim>\<open>hierarchy\<close>, \<^verbatim>\<open>upaparvas\<close> and \<^verbatim>\<open>adhyayas\<close> are object literals \<^verbatim>\<open>{}\<close>: their own
  properties are the list of pairs, and a read of a key that is not an own property
  finds what \<^verbatim>\<open>Object.prototype\<close> has under that name. Every such inherited value is
  truthy (a function, or the prototype itself for \<^verbatim>\<open>__proto__\<close>) and has none of the
  properties \<^verbatim>\<open>upaparvas\<close>, \<^verbatim>\<open>adhyayas\<close>, \<^verbatim>\<open>shlokas\<close>.
\<close>

definition objectPrototypeKeys :: "jsstring list" where
  "objectPrototypeKeys =
     map js [''constructor'', ''__defineGetter__'', ''__defineSetter__'', ''hasOwnProperty'',
             ''__lookupGetter__'', ''__lookupSetter__'', ''isPrototypeOf'',
             ''propertyIsEnumerable'', ''toString'', ''valueOf'', ''__proto__'',
             ''toLocaleString'']"

datatype 'a property = Own 'a | Inherited | Undefined

definition getProp :: "(jsstring \<times> 'a) list \<Rightarrow> jsstring \<Rightarrow> 'a property" where
  "getProp obj k =
     (case map_of obj k of
        Some v \<Rightarrow> Own v
      | None \<Rightarrow> if k \<in> set objectPrototypeKeys then Inherited else Undefined)"

fun setProp :: "jsstring \<Rightarrow> 'a \<Rightarrow> (jsstring \<times> 'a) list \<Rightarrow> (jsstring \<times> 'a) list" where
  "setProp k v [] = [(k, v)]"
| "setProp k v ((k', v') # kvs) =
     (if k' = k then (k, v) # kvs else (k', v') # setProp k v kvs)"

subsection \<open>groupByHierarchy\<close>

text \<open>The three levels. In the source every level has the fields \<^verbatim>\<open>stats\<close> and \<^verbatim>\<open>name\<close>;
  here they carry the level's name as a prefix.\<close>

record stats =
  matched :: nat
  unmatched :: nat
  total :: nat

record adhyayaNode =
  shlokas :: "shloka list"
  adhyayaStats :: stats
  adhyayaNodeName :: jsstring

record upaparvaNode =
  adhyayas :: "(jsstring \<times> adhyayaNode) list"
  upaparvaStats :: stats
  upaparvaNodeName :: jsstring

record parvaNode =
  upaparvas :: "(jsstring \<times> upaparvaNode) list"
  parvaStats :: stats
  parvaNodeName :: jsstring

type_synonym hierarchy = "(jsstring \<times> parvaNode) list"

datatype error = TypeError

definition zeroStats :: stats where
  "zeroStats = \<lparr> matched = 0, unmatched = 0, total = 0 \<rparr>"

text \<open>\<^verbatim>\<open>stats.total++\<close> and then \<^verbatim>\<open>stats.matched++\<close> or \<^verbatim>\<open>stats.unmatched++\<close>.\<close>

definition countShloka :: "bool \<Rightarrow> stats \<Rightarrow> stats" where
  "countShloka isMatched st =
     (if isMatched then st \<lparr> total := total st + 1, matched := matched st + 1 \<rparr>
      else st \<lparr> total := total st + 1, unmatched := unmatched st + 1 \<rparr>)"

text \<open>The object literals that the loop stores under a new key.\<close>

definition freshParva :: "jsstring \<Rightarrow> parvaNode" where
  "freshParva nm = \<lparr> upaparvas = [], parvaStats = zeroStats, parvaNodeName = nm \<rparr>"

definition freshUpaparva :: "jsstring \<Rightarrow> upaparvaNode" where
  "freshUpaparva nm = \<lparr> adhyayas = [], upaparvaStats = zeroStats, upaparvaNodeName = nm \<rparr>"

definition freshAdhyaya :: "jsstring \<Rightarrow> adhyayaNode" where
  "freshAdhyaya nm = \<lparr> shlokas = [], adhyayaStats = zeroStats, adhyayaNodeName = nm \<rparr>"


text \<open>
  The body of the \<^verbatim>\<open>forEach\<close> callback. A level is created when the read of its key is
  falsy, which is when the key is neither an own property nor inherited. When the read
  finds an inherited value, nothing is created and the next statement reads a property
  of \<^verbatim>\<open>undefined\<close>: a \<^verbatim>\<open>TypeError\<close>, which ends \<open>groupByHierarchy\<close>. The source's
  variables \<^verbatim>\<open>parva\<close>, \<^verbatim>\<open>upaparva\<close>, \<^verbatim>\<open>adhyaya\<close> are \<open>pk\<close>, \<open>uk\<close>, \<open>ak\<close> here, their names
  \<open>pName\<close>, \<open>uName\<close>, \<open>aName\<close>.
\<close>

definition groupStep :: "hierarchy \<Rightarrow> shloka \<Rightarrow> error + hierarchy" where
  "groupStep hierarchy sh =
     (let parsed = parseSrirangaHierarchy sh;
          pk = orString (parva parsed) (js ''Unknown'');
          pName = orString (parvaName parsed) pk;
          uk = orString (upaparva parsed) (js ''Unknown'');
          uName = orString (upaparvaName parsed) uk;
          ak = orString (adhyaya parsed) (js ''Unknown'');
          aName = orString (adhyayaName parsed) ak;
          isMatched = truthyBool (has_match sh)
      in case getProp hierarchy pk of
           Inherited \<Rightarrow> Inl TypeError
         | pv \<Rightarrow>
           (let p = (case pv of Own p0 \<Rightarrow> p0 | _ \<Rightarrow> freshParva pName)
            in case getProp (upaparvas p) uk of
                 Inherited \<Rightarrow> Inl TypeError
               | uv \<Rightarrow>
                 (let u = (case uv of Own u0 \<Rightarrow> u0 | _ \<Rightarrow> freshUpaparva uName)
                  in case getProp (adhyayas u) ak of
                       Inherited \<Rightarrow> Inl TypeError
                     | av \<Rightarrow>
                       (let a = (case av of Own a0 \<Rightarrow> a0 | _ \<Rightarrow> freshAdhyaya aName);
                            a' = a \<lparr> shlokas := shlokas a @ [sh],
                                     adhyayaStats := countShloka isMatched (adhyayaStats a) \<rparr>;
                            u' = u \<lparr> adhyayas := setProp ak a' (adhyayas u),
                                     upaparvaStats := countShloka isMatched (upaparvaStats u) \<rparr>;
                            p' = p \<lparr> upaparvas := setProp uk u' (upaparvas p),
                                     parvaStats := countShloka isMatched (parvaStats p) \<rparr>
                        in Inr (setProp pk p' hierarchy)))))"

fun groupLoop :: "hierarchy \<Rightarrow> shloka list \<Rightarrow> error + hierarchy" where
  "groupLoop hierarchy [] = Inr hierarchy"
| "groupLoop hierarchy (sh # rest) =
     (case groupStep hierarchy sh of
        Inl e \<Rightarrow> Inl e
      | Inr hierarchy' \<Rightarrow> groupLoop hierarchy' rest)"

definition groupByHierarchy :: "shloka list \<Rightarrow> error + hierarchy" where
  "groupByHierarchy records = groupLoop [] records"

subsection \<open>Reading a hierarchy\<close>

text \<open>The nodes of each level, the records of all leaves, and the leaf bucket under a
  triple of keys (\<^verbatim>\<open>hierarchy[p].upaparvas[u].adhyayas[a].shlokas\<close>, empty when a level is
  missing).\<close>

definition allParvas :: "hierarchy \<Rightarrow> parvaNode list" where
  "allParvas h = map snd h"

definition allUpaparvas :: "hierarchy \<Rightarrow> upaparvaNode list" where
  "allUpaparvas h = concat (map (\<lambda>p. map snd (upaparvas p)) (allParvas h))"

definition allAdhyayas :: "hierarchy \<Rightarrow> adhyayaNode list" where
  "allAdhyayas h = concat (map (\<lambda>u. map snd (adhyayas u)) (allUpaparvas h))"

definition allShlokas :: "hierarchy \<Rightarrow> shloka list" where
  "allShlokas h = concat (map shlokas (allAdhyayas h))"


text \<open>The counts of a list of records, and the sum of the counts of a list of children.\<close>

definition leafStats :: "shloka list \<Rightarrow> stats" where
  "leafStats ss =
     \<lparr> matched = length (filter (\<lambda>s. truthyBool (has_match s)) ss),
       unmatched = length (filter (\<lambda>s. \<not> truthyBool (has_match s)) ss),
       total = length ss \<rparr>"

definition sumStats :: "stats list \<Rightarrow> stats" where
  "sumStats sts =
     \<lparr> matched = sum_list (map matched sts),
       unmatched = sum_list (map unmatched sts),
       total = sum_list (map total sts) \<rparr>"

definition balanced :: "stats \<Rightarrow> bool" where
  "balanced st \<longleftrightarrow> total st = matched st + unmatched st"


subsection \<open>The invariant of the loop\<close>

text \<open>Used in the proofs: the value a level is read as (a fresh node when the key is
  new), the records below a node, and the property that every node's counts are those
  of its children.\<close>

definition lookupOr :: "(jsstring \<times> 'a) list \<Rightarrow> jsstring \<Rightarrow> 'a \<Rightarrow> 'a" where
  "lookupOr obj k fresh = (case map_of obj k of Some v \<Rightarrow> v | None \<Rightarrow> fresh)"

definition addToAdhyaya :: "shloka \<Rightarrow> adhyayaNode \<Rightarrow> adhyayaNode" where
  "addToAdhyaya sh a =
     a \<lparr> shlokas := shlokas a @ [sh],
         adhyayaStats := countShloka (truthyBool (has_match sh)) (adhyayaStats a) \<rparr>"

definition addToUpaparva :: "shloka \<Rightarrow> jsstring \<Rightarrow> jsstring \<Rightarrow> upaparvaNode \<Rightarrow> upaparvaNode" where
  "addToUpaparva sh ak aName u =
     u \<lparr> adhyayas :=
           setProp ak (addToAdhyaya sh (lookupOr (adhyayas u) ak (freshAdhyaya aName))) (adhyayas u),
         upaparvaStats := countShloka (truthyBool (has_match sh)) (upaparvaStats u) \<rparr>"

definition addToParva ::
  "shloka \<Rightarrow> jsstring \<Rightarrow> jsstring \<Rightarrow> jsstring \<Rightarrow> jsstring \<Rightarrow> parvaNode \<Rightarrow> parvaNode" where
  "addToParva sh uk uName ak aName p =
     p \<lparr> upaparvas :=
           setProp uk
             (addToUpaparva sh ak aName (lookupOr (upaparvas p) uk (freshUpaparva uName)))
             (upaparvas p),
         parvaStats := countShloka (truthyBool (has_match sh)) (parvaStats p) \<rparr>"

definition addToHierarchy :: "shloka \<Rightarrow> hierarchy \<Rightarrow> hierarchy" where
  "addToHierarchy sh h =
     (let parsed = parseSrirangaHierarchy sh;
          pk = orString (parva parsed) (js ''Unknown'');
          uk = orString (upaparva parsed) (js ''Unknown'');
          ak = orString (adhyaya parsed) (js ''Unknown'')
      in setProp pk
           (addToParva sh uk (orString (upaparvaName parsed) uk) ak
              (orString (adhyayaName parsed) ak)
              (lookupOr h pk (freshParva (orString (parvaName parsed) pk))))
           h)"


definition upaparvaShlokas :: "upaparvaNode \<Rightarrow> shloka list" where
  "upaparvaShlokas u = concat (map shlokas (map snd (adhyayas u)))"

definition parvaShlokas :: "parvaNode \<Rightarrow> shloka list" where
  "parvaShlokas p = concat (map upaparvaShlokas (map snd (upaparvas p)))"

definition adhyayaOk :: "adhyayaNode \<Rightarrow> bool" where
  "adhyayaOk a \<longleftrightarrow> adhyayaStats a = leafStats (shlokas a)"

definition upaparvaOk :: "upaparvaNode \<Rightarrow> bool" where
  "upaparvaOk u \<longleftrightarrow>
     list_all adhyayaOk (map snd (adhyayas u)) \<and>
     upaparvaStats u = sumStats (map adhyayaStats (map snd (adhyayas u)))"

definition parvaOk :: "parvaNode \<Rightarrow> bool" where
  "parvaOk p \<longleftrightarrow>
     list_all upaparvaOk (map snd (upaparvas p)) \<and>
     parvaStats p = sumStats (map upaparvaStats (map snd (upaparvas p)))"

definition hierarchyOk :: "hierarchy \<Rightarrow> bool" where
  "hierarchyOk h \<longleftrightarrow> list_all parvaOk (map snd h)"

text \<open>A book of three records for the concrete runs: one with explicit identifiers and a
  match, one with no field at all, one with a chapter number only.\<close>

definition exampleRecords :: "shloka list" where
  "exampleRecords =
     [blankShloka \<lparr> parva_id := Some (js ''P02''), upaparva_id := Some (js ''U01''),
        adhyaya_id := Some (js ''A001''), has_match := Some True \<rparr>,
      blankShloka,
      blankShloka \<lparr> chapter_number := Some 10 \<rparr>]"

section \<open>The statistics of buildHierarchy (dashboard.js)\<close>

text \<open>
  The object \<^verbatim>\<open>this.stats\<close>. Its fields \<^verbatim>\<open>total\<close>, \<^verbatim>\<open>unmatched\<close> and \<^verbatim>\<open>matched\<close> are
  \<open>statsTotal\<close>, \<open>statsUnmatched\<close> and \<open>statsMatched\<close> here (the counts of a hierarchy
  node have the plain names). \<^verbatim>\<open>matchRate\<close> is the number 0 or the string that
  \<^verbatim>\<open>toFixed(1)\<close> returns.
\<close>

datatype numberOrString = JSNumber int | JSString jsstring

record overallStats =
  statsTotal :: nat
  allMatched :: nat
  statsUnmatched :: nat
  highConfidence :: nat
  partial :: nat
  mndutt :: nat
  ce :: nat
  sarit :: nat
  manyToOne :: nat
  oneToMany :: nat
  statsMatched :: nat
  matchRate :: numberOrString

text \<open>\<^verbatim>\<open>s.similarity >= c\<close> and \<^verbatim>\<open>s.similarity < c\<close>: both are false when the field is
  missing (\<^verbatim>\<open>undefined\<close> compares as NaN). The literal \<^verbatim>\<open>0.9\<close> is the double next above
  \<open>9 / 10\<close>, with no double between the two, so a double is at least \<^verbatim>\<open>0.9\<close> exactly when it
  is at least \<open>9 / 10\<close>.\<close>

definition numberGe :: "rat option \<Rightarrow> rat \<Rightarrow> bool" where
  "numberGe x c \<longleftrightarrow> (case x of None \<Rightarrow> False | Some v \<Rightarrow> v \<ge> c)"

definition numberLt :: "rat option \<Rightarrow> rat \<Rightarrow> bool" where
  "numberLt x c \<longleftrightarrow> (case x of None \<Rightarrow> False | Some v \<Rightarrow> v < c)"

subsection \<open>Double arithmetic\<close>

text \<open>
  A JavaScript number is an IEEE 754 double; the model keeps the rational it stands for.
  \<open>roundDouble x\<close> is the double nearest to \<open>x\<close>, the one with the even significand of
  two nearest: the significand has 53 bits, so \<open>x\<close> is rounded to a multiple of
  \<open>2 powi (e - 52)\<close>, where \<open>2 powi e \<le> \<bar>x\<bar> < 2 powi (e + 1)\<close>. (The exponent range of
  doubles is not modelled: the quotients of two list lengths and their hundredfold lie
  far inside it.) \<open>bitLength n\<close> is the number of binary digits of \<open>n\<close>.
\<close>

function bitLength :: "nat \<Rightarrow> nat" where
  "bitLength n = (if n = 0 then 0 else Suc (bitLength (n div 2)))"
  by pat_completeness auto
termination
  by (relation "measure id") auto

declare bitLength.simps [simp del]

definition floorLog2 :: "rat \<Rightarrow> int" where
  "floorLog2 x =
     (case quotient_of x of (p, q) \<Rightarrow>
        (let k = int (bitLength (nat p)) - int (bitLength (nat q))
         in if 2 powi k \<le> x then k else k - 1))"

definition roundHalfEven :: "rat \<Rightarrow> int" where
  "roundHalfEven x =
     (let f = \<lfloor>x\<rfloor>; r = x - of_int f
      in if r < 1 / 2 then f else if 1 / 2 < r then f + 1 else if even f then f else f + 1)"

definition roundDouble :: "rat \<Rightarrow> rat" where
  "roundDouble x =
     (if x = 0 then 0
      else (let u = 2 powi (floorLog2 \<bar>x\<bar> - 52)
            in sgn x * of_int (roundHalfEven (\<bar>x\<bar> / u)) * u))"

text \<open>
  \<^verbatim>\<open>x.toFixed(1)\<close> for a double \<open>x\<close>: the integer \<open>n\<close> for which \<open>n / 10\<close> is nearest to the
  exact value of \<open>x\<close> (the larger one of two), printed with one digit after the point.
\<close>

definition tenths :: "rat \<Rightarrow> nat" where
  "tenths x = nat \<lfloor>x * 10 + 1 / 2\<rfloor>"

definition toFixed1 :: "rat \<Rightarrow> jsstring" where
  "toFixed1 x =
     (if x < 0 then 0x2D # decimal (tenths (- x) div 10) @ [0x2E] @ decimal (tenths (- x) mod 10)
      else decimal (tenths x div 10) @ [0x2E] @ decimal (tenths x mod 10))"

text \<open>The counters, and \<^verbatim>\<open>((allMatched / total) * 100).toFixed(1)\<close>: the division and the
  multiplication each round to a double.\<close>

definition collectStats :: "shloka list \<Rightarrow> overallStats" where
  "collectStats dat =
     (let t = length dat;
          am = length (filter (\<lambda>s. truthyBool (has_match s)) dat);
          hc = length (filter (\<lambda>s. truthyBool (has_match s) \<and> numberGe (similarity s) (9 / 10)) dat)
      in \<lparr> statsTotal = t,
           allMatched = am,
           statsUnmatched = length (filter (\<lambda>s. \<not> truthyBool (has_match s)) dat),
           highConfidence = hc,
           partial = length (filter (\<lambda>s. truthyBool (has_match s) \<and> numberLt (similarity s) (9 / 10)) dat),
           mndutt = length (filter (\<lambda>s. match_corpus s = Some (js ''mndutt'')) dat),
           ce = length (filter (\<lambda>s. match_corpus s = Some (js ''ce'')) dat),
           sarit = length (filter (\<lambda>s. match_corpus s = Some (js ''sarit'')) dat),
           manyToOne = length (filter (\<lambda>s. truthyBool (many_to_one s)) dat),
           oneToMany = length (filter (\<lambda>s. truthyBool (one_to_many s)) dat),
           statsMatched = hc,
           matchRate = (if t > 0
                        then JSString (toFixed1 (roundDouble (roundDouble (of_nat am / of_nat t) * 100)))
                        else JSNumber 0) \<rparr>)"

text \<open>The two records of the scenario of the specification.\<close>

definition scenarioRecords :: "shloka list" where
  "scenarioRecords =
     [blankShloka \<lparr> source_id := Some (js ''s1''), has_match := Some True,
        similarity := Some (95 / 100), match_corpus := Some (js ''ce'') \<rparr>,
      blankShloka \<lparr> source_id := Some (js ''s2''), has_match := Some False \<rparr>]"

text \<open>\<^verbatim>\<open>buildHierarchy\<close> groups first; an exception of the grouping leaves it.\<close>

definition buildHierarchy :: "shloka list \<Rightarrow> error + hierarchy \<times> overallStats" where
  "buildHierarchy dat =
     (case groupByHierarchy dat of
        Inl e \<Rightarrow> Inl e
      | Inr h \<Rightarrow> Inr (h, collectStats dat))"

section \<open>Properties of the diff engine\<close>

subsection \<open>The three renderings of a token are distinct\<close>

lemma span_neq_word:
  "spanMatch w \<noteq> w" "spanDifferent w \<noteq> w" "w \<noteq> spanMatch w" "w \<noteq> spanDifferent w"
  by (simp_all add: spanMatch_def spanDifferent_def js_def)

lemma spanMatch_neq_spanDifferent:
  "spanMatch w \<noteq> spanDifferent w'" "spanDifferent w' \<noteq> spanMatch w"
  by (simp_all add: spanMatch_def spanDifferent_def js_def)

lemma highlightBySet_skip: "isDandaOrNumber w \<Longrightarrow> highlightBySet lc S w = w"
  by (simp add: highlightBySet_def)

lemma highlightByPosition_skip: "isDandaOrNumber w \<Longrightarrow> highlightByPosition P (i, w) = w"
  by (simp add: highlightByPosition_def)

lemma alignedSourceSpans_nth:
  "i < length sw \<Longrightarrow>
   alignedSourceSpans sw al ! i = highlightByPosition (sourceMatchedPositions al) (i, sw ! i)"
  by (simp add: alignedSourceSpans_def nth_enumerate_eq)

lemma isDandaOrNumber_danda: "isDandaOrNumber [danda]"
  by (simp add: isDandaOrNumber_def)

lemma normalizeWord_visarga: "normalizeWord asciiLower [visarga] = []"
  by (simp add: normalizeWord_def removeDandasAndNumbers_def anusvaraToMa_def removeVisarga_def asciiLower_def trim_def replaceAll_def
        danda_def doubleDanda_def isAsciiDigit_def isDevanagariDigit_def visarga_def anusvara_def)

lemma visarga_not_skipped: "\<not> isDandaOrNumber [visarga]"
  by (simp add: isDandaOrNumber_def danda_def doubleDanda_def isAsciiDigit_def
        isDevanagariDigit_def visarga_def)

lemma empty_notin_normalizedWordSet: "[] \<notin> normalizedWordSet lc ws"
  by (simp add: normalizedWordSet_def)

subsection \<open>C2: dandas and numerals pass through\<close>

text \<open>
  C2. In both strategies and on both sides, a token that is a danda, a double danda or a
  non-empty run of Devanagari and ASCII digits is put into the joined array as it is:
  the entry for it is the token, which is neither its \<open>diff-match\<close> span nor its
  \<open>diff-different\<close> span. (\<^verbatim>\<open>sourceHtml\<close> and \<^verbatim>\<open>targetHtml\<close> are these arrays joined
  with spaces, by the definitions of \<open>diffWithLCS\<close> and \<open>diffWithAlignment\<close>.)
\<close>

theorem dandas_and_numerals_unannotated:
  assumes "isDandaOrNumber w"
  shows "(\<forall>i < length sw. sw ! i = w \<longrightarrow> lcsSourceSpans lc sw tw ! i = w)
       \<and> (\<forall>i < length tw. tw ! i = w \<longrightarrow> lcsTargetSpans lc sw tw ! i = w)
       \<and> (\<forall>i < length sw. sw ! i = w \<longrightarrow> alignedSourceSpans sw al ! i = w)
       \<and> (\<forall>i < length tw. tw ! i = w \<longrightarrow> alignedTargetSpans lc sw tw al ! i = w)
       \<and> w \<noteq> spanMatch w \<and> w \<noteq> spanDifferent w"
proof (intro conjI allI impI)
  fix i assume "i < length sw" "sw ! i = w"
  then show "lcsSourceSpans lc sw tw ! i = w"
    using assms by (simp add: lcsSourceSpans_def highlightBySet_skip)
next
  fix i assume "i < length tw" "tw ! i = w"
  then show "lcsTargetSpans lc sw tw ! i = w"
    using assms by (simp add: lcsTargetSpans_def highlightBySet_skip)
next
  fix i assume "i < length sw" "sw ! i = w"
  then show "alignedSourceSpans sw al ! i = w"
    using assms by (simp add: alignedSourceSpans_nth highlightByPosition_skip)
next
  fix i assume "i < length tw" "tw ! i = w"
  then show "alignedTargetSpans lc sw tw al ! i = w"
    using assms by (simp add: alignedTargetSpans_def highlightBySet_skip)
qed (simp_all add: span_neq_word)

theorem dandas_and_numerals_unannotated_witness:
  "isDandaOrNumber [danda]
   \<and> lcsSourceSpans asciiLower [[0x930, 0x93E, 0x92E], [danda]] [[0x930], [danda]] ! 1 = [danda]
   \<and> lcsTargetSpans asciiLower [[0x930, 0x93E, 0x92E], [danda]] [[0x930], [danda]] ! 1 = [danda]
   \<and> alignedSourceSpans [[0x930, 0x93E, 0x92E], [danda]]
         \<lparr> source_words = None, target_words = Some [], matched_positions = Some [0, 1],
           source_matched_positions = None \<rparr> ! 1 = [danda]"
  using dandas_and_numerals_unannotated [OF isDandaOrNumber_danda,
      of "[[0x930, 0x93E, 0x92E], [danda]]" asciiLower "[[0x930], [danda]]"
         "\<lparr> source_words = None, target_words = Some [], matched_positions = Some [0, 1],
           source_matched_positions = None \<rparr>"]
  by (simp add: isDandaOrNumber_danda)
subsection \<open>C3: the source side of the alignment-based strategy\<close>

lemma highlightByPosition_content:
  "\<not> isDandaOrNumber w \<Longrightarrow>
   highlightByPosition P (i, w) = (if i \<in> P then spanMatch w else spanDifferent w)"
  by (simp add: highlightByPosition_def)

lemma alignedSourceSpans_three:
  "alignedSourceSpans [w0, w1, w2] al =
     [highlightByPosition (sourceMatchedPositions al) (0, w0),
      highlightByPosition (sourceMatchedPositions al) (1, w1),
      highlightByPosition (sourceMatchedPositions al) (2, w2)]"
  by (simp add: alignedSourceSpans_def numeral_2_eq_2)

text \<open>
  C3. In \<open>diffWithAlignment\<close> the entry for a source token at index \<open>i\<close> that is neither
  a danda nor a number is its \<open>diff-match\<close> span exactly when \<open>i\<close> is in the set built from
  \<^verbatim>\<open>source_matched_positions || matched_positions || []\<close>, and its \<open>diff-different\<close> span
  exactly when it is not. The source side does not depend on the target words (nor on the
  case table): for a record whose alignment is used, \<open>computeDiff\<close> gives the same
  \<^verbatim>\<open>sourceHtml\<close> whatever \<^verbatim>\<open>matched_target_text\<close> is. With positions {0, 1} and three such tokens the first two are marked
  matching and the third different, whatever the target is.
\<close>

theorem alignment_source_marked_by_position:
  "(\<forall>i < length sw. \<not> isDandaOrNumber (sw ! i) \<longrightarrow>
      (alignedSourceSpans sw al ! i = spanMatch (sw ! i) \<longleftrightarrow> i \<in> sourceMatchedPositions al)
    \<and> (alignedSourceSpans sw al ! i = spanDifferent (sw ! i) \<longleftrightarrow> i \<notin> sourceMatchedPositions al))
   \<and> sourceHtml (diffWithAlignment lc sw tw al) = sourceHtml (diffWithAlignment lc' sw tw' al)
   \<and> (metadataAlignment sh = Some al \<and> target_words al \<noteq> None \<and> matched_positions al \<noteq> None \<longrightarrow>
        sourceHtml (computeDiff lc (sh \<lparr> matched_target_text := t \<rparr>))
          = joinSpace (alignedSourceSpans (tokenize (stringOr (source_text sh) [])) al))
   \<and> (\<not> isDandaOrNumber w0 \<and> \<not> isDandaOrNumber w1 \<and> \<not> isDandaOrNumber w2
        \<and> sourceMatchedPositions al = {0, 1} \<longrightarrow>
      sourceHtml (diffWithAlignment lc [w0, w1, w2] tw al)
        = joinSpace [spanMatch w0, spanMatch w1, spanDifferent w2])"
proof (intro conjI allI impI)
  fix i assume "i < length sw" "\<not> isDandaOrNumber (sw ! i)"
  then have e: "alignedSourceSpans sw al ! i =
      (if i \<in> sourceMatchedPositions al then spanMatch (sw ! i) else spanDifferent (sw ! i))"
    by (simp add: alignedSourceSpans_nth highlightByPosition_content)
  show "alignedSourceSpans sw al ! i = spanMatch (sw ! i) \<longleftrightarrow> i \<in> sourceMatchedPositions al"
    by (simp add: e spanMatch_neq_spanDifferent)
  show "alignedSourceSpans sw al ! i = spanDifferent (sw ! i) \<longleftrightarrow> i \<notin> sourceMatchedPositions al"
    by (simp add: e spanMatch_neq_spanDifferent)
next
  show "sourceHtml (diffWithAlignment lc sw tw al) = sourceHtml (diffWithAlignment lc' sw tw' al)"
    by (simp add: diffWithAlignment_def)
next
  assume "metadataAlignment sh = Some al \<and> target_words al \<noteq> None \<and> matched_positions al \<noteq> None"
  then show "sourceHtml (computeDiff lc (sh \<lparr> matched_target_text := t \<rparr>))
          = joinSpace (alignedSourceSpans (tokenize (stringOr (source_text sh) [])) al)"
    by (auto simp: computeDiff_def metadataAlignment_def diffWithAlignment_def Let_def
        split: option.splits)
next
  assume a: "\<not> isDandaOrNumber w0 \<and> \<not> isDandaOrNumber w1 \<and> \<not> isDandaOrNumber w2
        \<and> sourceMatchedPositions al = {0, 1}"
  then have "alignedSourceSpans [w0, w1, w2] al = [spanMatch w0, spanMatch w1, spanDifferent w2]"
    by (simp add: alignedSourceSpans_three highlightByPosition_content)
  then show "sourceHtml (diffWithAlignment lc [w0, w1, w2] tw al)
        = joinSpace [spanMatch w0, spanMatch w1, spanDifferent w2]"
    by (simp add: diffWithAlignment_def)
qed


theorem alignment_source_marked_by_position_witness:
  "(\<not> isDandaOrNumber [0x930] \<and> \<not> isDandaOrNumber [0x92E] \<and> \<not> isDandaOrNumber [0x915]
     \<and> sourceMatchedPositions
          \<lparr> source_words = None, target_words = Some [[0x938]], matched_positions = Some [0, 1],
            source_matched_positions = Some [0, 1] \<rparr> = {0, 1})
   \<and> sourceHtml (diffWithAlignment asciiLower [[0x930], [0x92E], [0x915]] [[0x938]]
       \<lparr> source_words = None, target_words = Some [[0x938]], matched_positions = Some [0, 1],
         source_matched_positions = Some [0, 1] \<rparr>)
     = joinSpace [spanMatch [0x930], spanMatch [0x92E], spanDifferent [0x915]]"
proof -
  let ?al = "\<lparr> source_words = None, target_words = Some [[0x938]], matched_positions = Some [0, 1],
         source_matched_positions = Some [0, 1] \<rparr>"
  have h: "\<not> isDandaOrNumber [0x930] \<and> \<not> isDandaOrNumber [0x92E] \<and> \<not> isDandaOrNumber [0x915]
     \<and> sourceMatchedPositions ?al = {0, 1}"
    by (simp add: isDandaOrNumber_def sourceMatchedPositions_def danda_def doubleDanda_def
        isDevanagariDigit_def isAsciiDigit_def insert_commute)
  from mp [OF alignment_source_marked_by_position [THEN conjunct2, THEN conjunct2, THEN conjunct2] h] h
  show ?thesis by blast
qed


subsection \<open>C4: symmetry of the fallback diff\<close>

text \<open>
  C4, as amended. In \<open>diffWithLCS\<close>, when a non-empty normalized form \<open>n\<close> is the normalized
  form of a source token and of a target token, every source token and every target token
  with that normalized form, dandas and numbers apart, is rendered as its \<open>diff-match\<close>
  span.
\<close>

theorem fallback_diff_symmetry:
  assumes "n \<noteq> []"
    and "n \<in> set (map (normalizeWord lc) sw)" and "n \<in> set (map (normalizeWord lc) tw)"
  shows "(\<forall>i < length sw. normalizeWord lc (sw ! i) = n \<and> \<not> isDandaOrNumber (sw ! i) \<longrightarrow>
            lcsSourceSpans lc sw tw ! i = spanMatch (sw ! i))
       \<and> (\<forall>i < length tw. normalizeWord lc (tw ! i) = n \<and> \<not> isDandaOrNumber (tw ! i) \<longrightarrow>
            lcsTargetSpans lc sw tw ! i = spanMatch (tw ! i))"
proof -
  from assms have "n \<in> normalizedWordSet lc sw" and "n \<in> normalizedWordSet lc tw"
    by (auto simp: normalizedWordSet_def)
  then show ?thesis
    by (simp add: lcsSourceSpans_def lcsTargetSpans_def highlightBySet_def)
qed

theorem fallback_diff_symmetry_witness:
  "[0x927, 0x930, 0x94D, 0x92E] \<noteq> []
   \<and> [0x927, 0x930, 0x94D, 0x92E]
       \<in> set (map (normalizeWord asciiLower)
             [[0x927, 0x930, 0x94D, 0x92E], [0x915, 0x941, 0x930, 0x941], [danda]])
   \<and> [0x927, 0x930, 0x94D, 0x92E]
       \<in> set (map (normalizeWord asciiLower) [[0x927, 0x930, 0x94D, 0x92E], [0x938, 0x92E], [danda]])
   \<and> lcsSourceSpans asciiLower [[0x927, 0x930, 0x94D, 0x92E], [0x915, 0x941, 0x930, 0x941], [danda]]
          [[0x927, 0x930, 0x94D, 0x92E], [0x938, 0x92E], [danda]] ! 0 = spanMatch [0x927, 0x930, 0x94D, 0x92E]
   \<and> lcsTargetSpans asciiLower [[0x927, 0x930, 0x94D, 0x92E], [0x915, 0x941, 0x930, 0x941], [danda]]
          [[0x927, 0x930, 0x94D, 0x92E], [0x938, 0x92E], [danda]] ! 0 = spanMatch [0x927, 0x930, 0x94D, 0x92E]"
proof -
  let ?w = "[0x927, 0x930, 0x94D, 0x92E] :: jsstring"
  let ?sw = "[?w, [0x915, 0x941, 0x930, 0x941], [danda]]"
  let ?tw = "[?w, [0x938, 0x92E], [danda]]"
  have n: "normalizeWord asciiLower ?w = ?w"
    by (simp add: normalizeWord_def removeDandasAndNumbers_def anusvaraToMa_def removeVisarga_def
        asciiLower_def trim_def replaceAll_def isWhiteSpace_def
        danda_def doubleDanda_def isAsciiDigit_def isDevanagariDigit_def visarga_def anusvara_def)
  have e: "?w \<noteq> []" by simp
  have s: "?w \<in> set (map (normalizeWord asciiLower) ?sw)"
    and t: "?w \<in> set (map (normalizeWord asciiLower) ?tw)"
    by (simp_all add: n)
  have k: "\<not> isDandaOrNumber ?w"
    by (simp add: isDandaOrNumber_def danda_def doubleDanda_def isAsciiDigit_def isDevanagariDigit_def)
  from fallback_diff_symmetry [OF e s t] n k
  have "lcsSourceSpans asciiLower ?sw ?tw ! 0 = spanMatch (?sw ! 0)"
    and "lcsTargetSpans asciiLower ?sw ?tw ! 0 = spanMatch (?tw ! 0)"
    by simp_all
  with s t show ?thesis by simp
qed

text \<open>
  C4 as stated fails for the empty normalized form. The source text is a word and a
  visarga, the target text a visarga and a word, and there is no alignment: the visarga
  is a token on both sides, so its normalized form (the empty string) is the normalized
  form of a source token and of a target token, and \<open>computeDiff\<close> marks it different on
  both sides. The two \<^verbatim>\<open>Set\<close>s that \<open>diffWithLCS\<close> builds leave the empty string out
  (\<^verbatim>\<open>.filter(w => w.length > 0)\<close>).
\<close>

theorem fallback_diff_symmetry_counterexample:
  "tokenize [0x930, 0x93E, 0x92E, 0x20, visarga] = [[0x930, 0x93E, 0x92E], [visarga]]
   \<and> tokenize [visarga, 0x20, 0x938] = [[visarga], [0x938]]
   \<and> normalizeWord asciiLower [visarga]
       \<in> set (map (normalizeWord asciiLower) (tokenize [0x930, 0x93E, 0x92E, 0x20, visarga]))
   \<and> normalizeWord asciiLower [visarga]
       \<in> set (map (normalizeWord asciiLower) (tokenize [visarga, 0x20, 0x938]))
   \<and> \<not> isDandaOrNumber [visarga]
   \<and> computeDiff asciiLower
        (blankShloka \<lparr> source_text := Some [0x930, 0x93E, 0x92E, 0x20, visarga],
           matched_target_text := Some [visarga, 0x20, 0x938] \<rparr>)
       = \<lparr> sourceHtml = joinSpace [spanDifferent [0x930, 0x93E, 0x92E], spanDifferent [visarga]],
           targetHtml = joinSpace [spanDifferent [visarga], spanDifferent [0x938]] \<rparr>
   \<and> spanDifferent [visarga] \<noteq> spanMatch [visarga]"
proof -
  have s: "tokenize [0x930, 0x93E, 0x92E, 0x20, visarga] = [[0x930, 0x93E, 0x92E], [visarga]]"
    and t: "tokenize [visarga, 0x20, 0x938] = [[visarga], [0x938]]"
    by (simp_all add: tokenize_def replaceAll_def danda_def doubleDanda_def space_def visarga_def
        isWhiteSpace_def trim_def)
  have v: "normalizeWord asciiLower [visarga] = []"
    by (simp add: normalizeWord_def removeDandasAndNumbers_def anusvaraToMa_def removeVisarga_def
        asciiLower_def trim_def replaceAll_def isWhiteSpace_def
        danda_def doubleDanda_def isAsciiDigit_def isDevanagariDigit_def visarga_def anusvara_def)
  have k: "\<not> isDandaOrNumber [visarga]"
    by (simp add: isDandaOrNumber_def danda_def doubleDanda_def isAsciiDigit_def
        isDevanagariDigit_def visarga_def)
  have k2: "\<not> isDandaOrNumber [0x930, 0x93E, 0x92E]" "\<not> isDandaOrNumber [0x938]"
    by (simp_all add: isDandaOrNumber_def danda_def doubleDanda_def isAsciiDigit_def
        isDevanagariDigit_def)
  have n: "normalizeWord asciiLower [0x930, 0x93E, 0x92E] = [0x930, 0x93E, 0x92E]"
    "normalizeWord asciiLower [0x938] = [0x938]"
    by (simp_all add: normalizeWord_def removeDandasAndNumbers_def anusvaraToMa_def removeVisarga_def
        asciiLower_def trim_def replaceAll_def isWhiteSpace_def
        danda_def doubleDanda_def isAsciiDigit_def isDevanagariDigit_def visarga_def anusvara_def)
  have ws: "normalizedWordSet asciiLower [[0x930, 0x93E, 0x92E], [visarga]] = {[0x930, 0x93E, 0x92E]}"
    "normalizedWordSet asciiLower [[visarga], [0x938]] = {[0x938]}"
    by (simp_all add: normalizedWordSet_def v n)
  have d: "computeDiff asciiLower
        (blankShloka \<lparr> source_text := Some [0x930, 0x93E, 0x92E, 0x20, visarga],
           matched_target_text := Some [visarga, 0x20, 0x938] \<rparr>)
       = \<lparr> sourceHtml = joinSpace [spanDifferent [0x930, 0x93E, 0x92E], spanDifferent [visarga]],
           targetHtml = joinSpace [spanDifferent [visarga], spanDifferent [0x938]] \<rparr>"
    by (simp add: computeDiff_def metadataAlignment_def blankShloka_def stringOr_def s t
        diffWithLCS_def lcsSourceSpans_def lcsTargetSpans_def highlightBySet_def k k2 v n ws)
  from s t v k d spanMatch_neq_spanDifferent [of "[visarga]"] show ?thesis
    by (simp del: joinSpace.simps)
qed

subsection \<open>C8: which strategy computeDiff takes\<close>

text \<open>
  C8. \<open>computeDiff\<close> returns the result of \<open>diffWithAlignment\<close> on the tokenized texts
  exactly when the record has \<^verbatim>\<open>metadata.alignment\<close> with both \<^verbatim>\<open>target_words\<close> and
  \<^verbatim>\<open>matched_positions\<close>; in every other case (no metadata, no alignment, or an alignment
  that lacks one of the two) it returns the result of \<open>diffWithLCS\<close>.
\<close>

theorem diff_strategy_selection:
  "(\<forall>al. metadataAlignment sh = Some al \<and> target_words al \<noteq> None \<and> matched_positions al \<noteq> None \<longrightarrow>
       computeDiff lc sh =
         diffWithAlignment lc (tokenize (stringOr (source_text sh) []))
           (tokenize (stringOr (matched_target_text sh) [])) al)
   \<and> (\<not> (\<exists>al. metadataAlignment sh = Some al \<and> target_words al \<noteq> None \<and> matched_positions al \<noteq> None) \<longrightarrow>
       computeDiff lc sh =
         diffWithLCS lc (tokenize (stringOr (source_text sh) []))
           (tokenize (stringOr (matched_target_text sh) [])))"
  by (auto simp: computeDiff_def Let_def split: option.splits)

theorem diff_strategy_selection_witness:
  "computeDiff asciiLower
      (blankShloka \<lparr> source_text := Some [0x930, 0x20, 0x92E], matched_target_text := Some [0x92E],
         metadata := Some \<lparr> alignment = Some \<lparr> source_words = None, target_words = Some [[0x92E]],
            matched_positions = Some [0], source_matched_positions = None \<rparr> \<rparr> \<rparr>)
     = diffWithAlignment asciiLower [[0x930], [0x92E]] [[0x92E]]
         \<lparr> source_words = None, target_words = Some [[0x92E]],
            matched_positions = Some [0], source_matched_positions = None \<rparr>
   \<and> computeDiff asciiLower
      (blankShloka \<lparr> source_text := Some [0x930, 0x20, 0x92E], matched_target_text := Some [0x92E],
         metadata := Some \<lparr> alignment = Some \<lparr> source_words = None, target_words = Some [[0x92E]],
            matched_positions = None, source_matched_positions = Some [0] \<rparr> \<rparr> \<rparr>)
     = diffWithLCS asciiLower [[0x930], [0x92E]] [[0x92E]]"
proof -
  let ?al1 = "\<lparr> source_words = None, target_words = Some [[0x92E]],
            matched_positions = Some [0], source_matched_positions = None \<rparr>"
  let ?al2 = "\<lparr> source_words = None, target_words = Some [[0x92E]],
            matched_positions = None, source_matched_positions = Some [0::nat] \<rparr>"
  let ?sh1 = "blankShloka \<lparr> source_text := Some [0x930, 0x20, 0x92E], matched_target_text := Some [0x92E],
         metadata := Some \<lparr> alignment = Some ?al1 \<rparr> \<rparr>"
  let ?sh2 = "blankShloka \<lparr> source_text := Some [0x930, 0x20, 0x92E], matched_target_text := Some [0x92E],
         metadata := Some \<lparr> alignment = Some ?al2 \<rparr> \<rparr>"
  have tk: "tokenize [0x930, 0x20, 0x92E] = [[0x930], [0x92E]]" "tokenize [0x92E] = [[0x92E]]"
    by (simp_all add: tokenize_def replaceAll_def danda_def doubleDanda_def space_def
        isWhiteSpace_def trim_def)
  have a1: "metadataAlignment ?sh1 = Some ?al1 \<and> target_words ?al1 \<noteq> None \<and> matched_positions ?al1 \<noteq> None"
    by (simp add: metadataAlignment_def blankShloka_def)
  have a2: "\<not> (\<exists>al. metadataAlignment ?sh2 = Some al \<and> target_words al \<noteq> None \<and> matched_positions al \<noteq> None)"
    by (simp add: metadataAlignment_def blankShloka_def)
  have "computeDiff asciiLower ?sh1 = diffWithAlignment asciiLower [[0x930], [0x92E]] [[0x92E]] ?al1"
    using diff_strategy_selection [of ?sh1 asciiLower, THEN conjunct1, rule_format, OF a1]
    by (simp add: blankShloka_def stringOr_def tk)
  moreover have "computeDiff asciiLower ?sh2 = diffWithLCS asciiLower [[0x930], [0x92E]] [[0x92E]]"
    using diff_strategy_selection [of ?sh2 asciiLower, THEN conjunct2, rule_format, OF a2]
    by (simp add: blankShloka_def stringOr_def tk)
  ultimately show ?thesis by simp
qed


subsection \<open>C10: tokens with an empty normalized form\<close>

text \<open>
  C10, as amended. A token whose normalized form is empty and that is neither a danda nor a
  number is rendered as its \<open>diff-different\<close> span on both sides of \<open>diffWithLCS\<close> and on
  the target side of \<open>diffWithAlignment\<close>: the empty string is never in a word set. On
  the source side of \<open>diffWithAlignment\<close> its index alone decides.
\<close>

theorem empty_normal_form_marked_different:
  assumes "normalizeWord lc w = []" and "\<not> isDandaOrNumber w"
  shows "(\<forall>i < length sw. sw ! i = w \<longrightarrow> lcsSourceSpans lc sw tw ! i = spanDifferent w)
       \<and> (\<forall>i < length tw. tw ! i = w \<longrightarrow> lcsTargetSpans lc sw tw ! i = spanDifferent w)
       \<and> (\<forall>i < length tw. tw ! i = w \<longrightarrow> alignedTargetSpans lc sw tw al ! i = spanDifferent w)
       \<and> (\<forall>i < length sw. sw ! i = w \<longrightarrow>
            alignedSourceSpans sw al ! i =
              (if i \<in> sourceMatchedPositions al then spanMatch w else spanDifferent w))"
  using assms
  by (simp add: lcsSourceSpans_def lcsTargetSpans_def alignedTargetSpans_def highlightBySet_def
      empty_notin_normalizedWordSet alignedSourceSpans_nth highlightByPosition_def)

theorem empty_normal_form_marked_different_witness:
  "normalizeWord asciiLower [visarga] = [] \<and> \<not> isDandaOrNumber [visarga]
   \<and> lcsSourceSpans asciiLower [[0x930], [visarga]] [[visarga]] ! 1 = spanDifferent [visarga]
   \<and> lcsTargetSpans asciiLower [[0x930], [visarga]] [[visarga]] ! 0 = spanDifferent [visarga]"
  using empty_normal_form_marked_different [OF normalizeWord_visarga visarga_not_skipped,
      of "[[0x930], [visarga]]" "[[visarga]]"]
    normalizeWord_visarga visarga_not_skipped
  by simp

text \<open>
  C10 as stated fails on the source side of the alignment-based strategy: the token
  \<open>[visarga]\<close> at index 1, with matched positions [0, 1], is marked matching.
\<close>

theorem empty_normal_form_alignment_source_counterexample:
  "normalizeWord asciiLower [visarga] = [] \<and> \<not> isDandaOrNumber [visarga]
   \<and> sourceHtml (computeDiff asciiLower
        (blankShloka \<lparr> source_text := Some [0x930, 0x20, visarga],
           matched_target_text := Some [0x930],
           metadata := Some \<lparr> alignment = Some \<lparr> source_words = None, target_words = Some [[0x930]],
              matched_positions = Some [0, 1], source_matched_positions = None \<rparr> \<rparr> \<rparr>))
       = joinSpace [spanMatch [0x930], spanMatch [visarga]]"
proof -
  have "sourceHtml (computeDiff asciiLower
        (blankShloka \<lparr> source_text := Some [0x930, 0x20, visarga],
           matched_target_text := Some [0x930],
           metadata := Some \<lparr> alignment = Some \<lparr> source_words = None, target_words = Some [[0x930]],
              matched_positions = Some [0, 1], source_matched_positions = None \<rparr> \<rparr> \<rparr>))
       = joinSpace [spanMatch [0x930], spanMatch [visarga]]"
    by (simp add: computeDiff_def metadataAlignment_def
      blankShloka_def stringOr_def diffWithAlignment_def alignedSourceSpans_def
      highlightByPosition_def sourceMatchedPositions_def isDandaOrNumber_def
      tokenize_def replaceAll_def danda_def doubleDanda_def space_def visarga_def
      isWhiteSpace_def trim_def isAsciiDigit_def isDevanagariDigit_def)
  then show ?thesis
    using normalizeWord_visarga visarga_not_skipped by simp
qed

subsection \<open>C9: the tokenizer\<close>

lemma split_not_Nil: "split sep s \<noteq> []"
  by (induction s) (auto split: list.splits)

lemma flush_Nil: "flush [] = []"
  by (simp add: flush_def)

lemma split_scanBy:
  "filter (\<lambda>t. length t > 0) (case split sep s of [] \<Rightarrow> [] | x # xs \<Rightarrow> (cur @ x) # xs)
     = scanBy (\<lambda>c. c = sep) cur s"
proof (induction s arbitrary: cur)
  case Nil
  then show ?case by (simp add: flush_def)
next
  case (Cons c cs)
  show ?case
  proof (cases "c = sep")
    case True
    have "filter (\<lambda>t. length t > 0) (split sep cs) = scanBy (\<lambda>c. c = sep) [] cs"
      using Cons.IH [of "[]"] split_not_Nil [of sep cs] by (simp split: list.splits)
    with True show ?thesis by (simp add: flush_def)
  next
    case False
    obtain w ws where sp: "split sep cs = w # ws"
      using split_not_Nil [of sep cs] by (cases "split sep cs") auto
    with False Cons.IH [of "cur @ [c]"] show ?thesis by simp
  qed
qed

lemma filter_split_scanBy:
  "filter (\<lambda>t. length t > 0) (split sep s) = scanBy (\<lambda>c. c = sep) [] s"
  using split_scanBy [where cur = "[]" and sep = sep and s = s] split_not_Nil [of sep s]
  by (simp split: list.splits)

lemma filter_split_scanBy':
  "filter (\<lambda>t. t \<noteq> []) (split sep s) = scanBy (\<lambda>c. c = sep) [] s"
  using filter_split_scanBy [of sep s] by simp

lemma scanBy_cong_set:
  "(\<And>c. c \<in> set s \<Longrightarrow> P c = Q c) \<Longrightarrow> scanBy P cur s = scanBy Q cur s"
  by (induction s arbitrary: cur) auto

lemma scanBy_all_sep: "list_all P s \<Longrightarrow> scanBy P cur s = flush cur"
  by (induction s arbitrary: cur) (auto simp: flush_Nil)

lemma scanBy_append_seps: "list_all P s2 \<Longrightarrow> scanBy P cur (s1 @ s2) = scanBy P cur s1"
  by (induction s1 arbitrary: cur) (auto simp: scanBy_all_sep)

lemma scanBy_dropWhile: "scanBy P [] (dropWhile P s) = scanBy P [] s"
  by (induction s) (auto simp: flush_Nil)

lemma scanBy_trim: "scanBy isWhiteSpace [] (trim s) = scanBy isWhiteSpace [] s"
proof -
  let ?d = "dropWhile isWhiteSpace s"
  have "?d = rev (dropWhile isWhiteSpace (rev ?d)) @ rev (takeWhile isWhiteSpace (rev ?d))"
    by (metis rev_append rev_rev_ident takeWhile_dropWhile_id)
  moreover have "list_all isWhiteSpace (rev (takeWhile isWhiteSpace (rev ?d)))"
    by (simp add: list_all_iff) (meson set_takeWhileD)
  ultimately have "scanBy isWhiteSpace [] ?d = scanBy isWhiteSpace [] (rev (dropWhile isWhiteSpace (rev ?d)))"
    by (metis scanBy_append_seps)
  then show ?thesis by (simp add: trim_def scanBy_dropWhile)
qed

lemma isWhiteSpace_space: "isWhiteSpace space"
  by (simp add: isWhiteSpace_def space_def)

lemma scanBy_collapse:
  "scanBy isWhiteSpace cur (collapseWhiteSpace s) = scanBy isWhiteSpace cur s"
proof (induction s arbitrary: cur rule: collapseWhiteSpace.induct)
  case 1
  then show ?case by simp
next
  case (2 c cs)
  show ?case
  proof (cases "isWhiteSpace c")
    case True
    with "2.IH"(1) [of "[]"] show ?thesis
      by (simp add: isWhiteSpace_space scanBy_dropWhile)
  next
    case False
    with "2.IH"(2) [of "cur @ [c]"] show ?thesis by simp
  qed
qed

lemma collapse_only_spaces:
  "c \<in> set (collapseWhiteSpace s) \<Longrightarrow> isWhiteSpace c \<Longrightarrow> c = space"
  by (induction s rule: collapseWhiteSpace.induct) (auto split: if_splits)

lemma set_trim_subset: "set (trim s) \<subseteq> set s"
proof -
  have "set (trim s) \<subseteq> set (dropWhile isWhiteSpace s)"
    unfolding trim_def using set_dropWhileD by fastforce
  also have "\<dots> \<subseteq> set s" using set_dropWhileD by fastforce
  finally show ?thesis .
qed

lemma danda_facts:
  "\<not> isWhiteSpace danda" "\<not> isWhiteSpace doubleDanda" "danda \<noteq> doubleDanda" "doubleDanda \<noteq> danda"
  "danda \<noteq> space" "doubleDanda \<noteq> space" "space \<noteq> danda" "space \<noteq> doubleDanda"
  by (simp_all add: isWhiteSpace_def danda_def doubleDanda_def space_def)

lemma isolate_Cons:
  "replaceAll doubleDanda [space, doubleDanda, space] (replaceAll danda [space, danda, space] (c # cs))
     = (if c = danda then [space, danda, space] else if c = doubleDanda then [space, doubleDanda, space] else [c])
       @ replaceAll doubleDanda [space, doubleDanda, space] (replaceAll danda [space, danda, space] cs)"
  by (simp add: replaceAll_def danda_facts)

lemma scanBy_isolate:
  "scanBy isWhiteSpace cur
     (replaceAll doubleDanda [space, doubleDanda, space] (replaceAll danda [space, danda, space] s))
   = scanTokens cur s"
proof (induction s arbitrary: cur)
  case Nil
  then show ?case by (simp add: replaceAll_def)
next
  case (Cons c cs)
  show ?case
    unfolding isolate_Cons
    by (simp add: Cons.IH isWhiteSpace_space danda_facts flush_def)
qed

lemma tokenize_scanTokens: "tokenize s = scanTokens [] s"
proof -
  let ?i = "replaceAll doubleDanda [space, doubleDanda, space] (replaceAll danda [space, danda, space] s)"
  let ?u = "trim (collapseWhiteSpace ?i)"
  have "\<And>c. c \<in> set ?u \<Longrightarrow> (c = space) = isWhiteSpace c"
    using set_trim_subset collapse_only_spaces isWhiteSpace_space by blast
  then have "scanBy (\<lambda>c. c = space) [] ?u = scanBy isWhiteSpace [] ?u"
    by (rule scanBy_cong_set)
  then show ?thesis
    by (simp add: tokenize_def filter_split_scanBy' scanBy_trim scanBy_collapse scanBy_isolate)
qed

lemma scanTokens_tokens:
  "plainWord cur \<Longrightarrow> list_all isToken (scanTokens cur s)"
proof (induction s arbitrary: cur)
  case Nil
  then show ?case by (simp add: flush_def isToken_def)
next
  case (Cons c cs)
  have e: "plainWord []" by (simp add: plainWord_def)
  have f: "list_all isToken (flush cur)" using Cons.prems by (simp add: flush_def isToken_def)
  show ?case
  proof (cases "isWhiteSpace c \<or> c = danda \<or> c = doubleDanda")
    case True
    have "isToken [danda]" "isToken [doubleDanda]" by (simp_all add: isToken_def)
    with True show ?thesis using Cons.IH [OF e] f by (auto simp: danda_facts)
  next
    case False
    then have "plainWord (cur @ [c])" using Cons.prems by (simp add: plainWord_def)
    from Cons.IH [OF this] False show ?thesis by simp
  qed
qed

lemma scanTokens_plain_prefix:
  "plainWord w \<Longrightarrow> scanTokens cur (w @ rest) = scanTokens (cur @ w) rest"
  by (induction w arbitrary: cur) (auto simp: plainWord_def)

lemma scanTokens_token_space:
  "isToken w \<Longrightarrow> scanTokens [] (w @ space # rest) = w # scanTokens [] rest"
  by (auto simp: isToken_def scanTokens_plain_prefix isWhiteSpace_space flush_def danda_facts)

lemma scanTokens_token_end: "isToken w \<Longrightarrow> scanTokens [] w = [w]"
  using scanTokens_plain_prefix [of w "[]" "[]"]
  by (auto simp: isToken_def flush_def danda_facts)

lemma scanTokens_joinSpace:
  "list_all isToken ws \<Longrightarrow> scanTokens [] (joinSpace ws) = ws"
  by (induction ws rule: joinSpace.induct)
     (simp_all add: flush_def scanTokens_token_end scanTokens_token_space)

text \<open>
  C9. Joining the tokens of a text with single spaces and tokenizing the result gives the
  same tokens again. The tokenizer is a function of the text alone (the closure reads no
  variable, and its regular expressions keep no state between calls), so equal texts
  have equal token sequences.
\<close>

theorem tokenize_round_trip:
  "tokenize (joinSpace (tokenize s)) = tokenize s
   \<and> (\<forall>s'. s' = s \<longrightarrow> tokenize s' = tokenize s)"
  by (simp add: tokenize_scanTokens scanTokens_joinSpace scanTokens_tokens plainWord_def)

theorem tokenize_round_trip_witness:
  "tokenize [0x930, 0x20, 0x20, 0x92E, 0x964, 0x915, 0x0A] = [[0x930], [0x92E], [0x964], [0x915]]
   \<and> joinSpace [[0x930], [0x92E], [0x964], [0x915]] = [0x930, 0x20, 0x92E, 0x20, 0x964, 0x20, 0x915]
   \<and> tokenize [0x930, 0x20, 0x92E, 0x20, 0x964, 0x20, 0x915] = [[0x930], [0x92E], [0x964], [0x915]]"
proof -
  have t: "tokenize [0x930, 0x20, 0x20, 0x92E, 0x964, 0x915, 0x0A] = [[0x930], [0x92E], [0x964], [0x915]]"
    by (simp add: tokenize_def replaceAll_def danda_def doubleDanda_def space_def
        isWhiteSpace_def trim_def)
  have j: "joinSpace [[0x930], [0x92E], [0x964], [0x915]] = [0x930, 0x20, 0x92E, 0x20, 0x964, 0x20, 0x915]"
    by (simp add: space_def)
  from tokenize_round_trip [of "[0x930, 0x20, 0x20, 0x92E, 0x964, 0x915, 0x0A]"]
  have "tokenize (joinSpace (tokenize [0x930, 0x20, 0x20, 0x92E, 0x964, 0x915, 0x0A]))
          = tokenize [0x930, 0x20, 0x20, 0x92E, 0x964, 0x915, 0x0A]"
    by blast
  with t j show ?thesis by simp
qed

subsection \<open>C5: normalizeWord\<close>

lemma mark_facts:
  "\<not> isMark letterMa" "\<not> isMark virama"
  by (simp_all add: isMark_def letterMa_def virama_def danda_def doubleDanda_def isAsciiDigit_def
      isDevanagariDigit_def anusvara_def visarga_def)

lemma removeMarks_clean:
  "list_all (\<lambda>c. \<not> isMark c) (removeVisarga (anusvaraToMa (removeDandasAndNumbers s)))"
proof (induction s)
  case Nil
  then show ?case
    by (simp add: removeVisarga_def anusvaraToMa_def removeDandasAndNumbers_def replaceAll_def)
next
  case (Cons c cs)
  have v: "letterMa \<noteq> visarga" "virama \<noteq> visarga" "anusvara \<noteq> visarga"
    by (simp_all add: letterMa_def virama_def visarga_def anusvara_def)
  from Cons show ?case
    using mark_facts v
    by (auto simp: removeVisarga_def anusvaraToMa_def removeDandasAndNumbers_def replaceAll_def isMark_def)
qed

lemma removeMarks_id:
  "list_all (\<lambda>c. \<not> isMark c) s \<Longrightarrow> removeVisarga (anusvaraToMa (removeDandasAndNumbers s)) = s"
  by (induction s)
     (auto simp: removeVisarga_def anusvaraToMa_def removeDandasAndNumbers_def replaceAll_def isMark_def)

lemma trim_clean: "list_all (\<lambda>c. \<not> isMark c) s \<Longrightarrow> list_all (\<lambda>c. \<not> isMark c) (trim s)"
  using set_trim_subset [of s] by (auto simp: list_all_iff)

lemma trim_Nil: "trim [] = []"
  by (simp add: trim_def)

lemma trim_fixed:
  assumes "s = [] \<or> (\<not> isWhiteSpace (hd s) \<and> \<not> isWhiteSpace (last s))"
  shows "trim s = s"
proof (cases "s = []")
  case True
  then show ?thesis by (simp add: trim_def)
next
  case False
  with assms have h: "\<not> isWhiteSpace (hd s)" and l: "\<not> isWhiteSpace (last s)" by auto
  from False h have "dropWhile isWhiteSpace s = s" by (cases s) auto
  moreover from False l have "dropWhile isWhiteSpace (rev s) = rev s"
    by (cases "rev s") (auto simp: hd_rev [symmetric] dest: arg_cong [where f = hd])
  ultimately show ?thesis by (simp add: trim_def)
qed

lemma trim_ends:
  "trim s = [] \<or> (\<not> isWhiteSpace (hd (trim s)) \<and> \<not> isWhiteSpace (last (trim s)))"
proof (cases "trim s = []")
  case True
  then show ?thesis by simp
next
  case False
  let ?d = "dropWhile isWhiteSpace s"
  let ?e = "dropWhile isWhiteSpace (rev ?d)"
  from False have e: "?e \<noteq> []" by (simp add: trim_def)
  have d: "?d \<noteq> []"
  proof
    assume "?d = []"
    then have "?e = []" by (simp only: rev.simps dropWhile.simps)
    with e show False by simp
  qed
  from e have he: "\<not> isWhiteSpace (hd ?e)" by (rule hd_dropWhile)
  from d have hd: "\<not> isWhiteSpace (hd ?d)" by (rule hd_dropWhile)
  have "rev ?d = takeWhile isWhiteSpace (rev ?d) @ ?e" by simp
  then have "last (rev ?d) = last ?e" using e by (metis last_appendR)
  then have le: "\<not> isWhiteSpace (last ?e)" using hd d by (simp add: last_rev)
  have "hd (trim s) = last ?e" "last (trim s) = hd ?e"
    using e by (simp_all add: trim_def hd_rev last_rev)
  with he le show ?thesis by simp
qed

lemma trim_trim: "trim (trim s) = trim s"
  using trim_ends [of s] by (rule trim_fixed)

lemma normalizeWord_stable:
  "trim (removeVisarga (anusvaraToMa (removeDandasAndNumbers
      (trim (removeVisarga (anusvaraToMa (removeDandasAndNumbers s)))))))
   = trim (removeVisarga (anusvaraToMa (removeDandasAndNumbers s)))"
  by (simp add: removeMarks_id trim_clean removeMarks_clean trim_trim)

lemma caseMapping_caseStable:
  assumes "caseMapping lc"
  shows "caseStable lc"
proof -
  let ?r = "\<lambda>s. trim (removeVisarga (anusvaraToMa (removeDandasAndNumbers s)))"
  have l: "\<And>s. lc (?r s) = ?r (lc s)"
    using assms by (simp add: caseMapping_def)
  have "\<And>s. ?r s = s \<Longrightarrow> ?r (lc s) = lc s"
  proof -
    fix s assume "?r s = s"
    then have "lc (?r s) = lc s" by simp
    then show "?r (lc s) = lc s" by (simp only: l)
  qed
  moreover have "\<And>s. lc (lc s) = lc s"
    using assms by (simp add: caseMapping_def)
  ultimately show ?thesis by (simp add: caseStable_def)
qed

lemma normalizeWord_commutesAt:
  assumes "lc [] = []" and "commutesAt lc s"
  shows "normalizeWord lc s = trim (removeVisarga (anusvaraToMa (removeDandasAndNumbers (lc s))))"
proof (cases "s = []")
  case True
  with assms(1) show ?thesis
    by (simp add: normalizeWord_def trim_Nil removeVisarga_def anusvaraToMa_def
        removeDandasAndNumbers_def replaceAll_def)
next
  case False
  with assms(2) show ?thesis by (simp add: normalizeWord_def commutesAt_def)
qed

lemma caseMapping_commutesAt:
  assumes "caseMapping lc"
  shows "commutesAt lc s"
  using assms by (simp add: caseMapping_def commutesAt_def)

text \<open>
  C5, as amended. \<open>normalizeWord\<close> is idempotent for every \<^verbatim>\<open>toLowerCase\<close> that is
  \<open>caseStable\<close>, as \<open>greekLowerCase\<close> is. Two strings \<open>X\<close> and \<open>x\<close> that differ in letter case
  only (they have the same lower-case form) have the same normalized form, so that
  normalizing \<open>X\<close> gives what normalizing \<open>x\<close> twice gives, when lower-casing commutes with
  the replacements and the trimming on both (\<open>commutesAt\<close>): with a case table that works
  code unit by code unit that is every string, with \<open>greekLowerCase\<close> every string
  without a capital sigma.
\<close>

theorem normalizeWord_idempotent:
  "(caseStable toLowerCase \<longrightarrow>
      normalizeWord toLowerCase (normalizeWord toLowerCase x) = normalizeWord toLowerCase x)
   \<and> (caseStable toLowerCase \<and> toLowerCase [] = []
        \<and> commutesAt toLowerCase X \<and> commutesAt toLowerCase x
        \<and> toLowerCase X = toLowerCase x \<longrightarrow>
          normalizeWord toLowerCase X
            = normalizeWord toLowerCase (normalizeWord toLowerCase x))"
proof -
  have idem: "normalizeWord toLowerCase (normalizeWord toLowerCase x) = normalizeWord toLowerCase x"
    if s: "caseStable toLowerCase"
  proof (cases "x = [] \<or> toLowerCase (trim (removeVisarga (anusvaraToMa (removeDandasAndNumbers x)))) = []")
    case True
    then show ?thesis by (auto simp: normalizeWord_def)
  next
    case False
    let ?z = "trim (removeVisarga (anusvaraToMa (removeDandasAndNumbers x)))"
    have "trim (removeVisarga (anusvaraToMa (removeDandasAndNumbers ?z))) = ?z"
      by (rule normalizeWord_stable)
    with s have "trim (removeVisarga (anusvaraToMa (removeDandasAndNumbers (toLowerCase ?z))))
                   = toLowerCase ?z"
      by (simp only: caseStable_def)
    moreover from s have "toLowerCase (toLowerCase ?z) = toLowerCase ?z"
      by (simp only: caseStable_def)
    ultimately show ?thesis using False by (simp add: normalizeWord_def)
  qed
  have fold: "normalizeWord toLowerCase X = normalizeWord toLowerCase (normalizeWord toLowerCase x)"
    if s: "caseStable toLowerCase" and e: "toLowerCase [] = []"
      and cX: "commutesAt toLowerCase X" and cx: "commutesAt toLowerCase x"
      and l: "toLowerCase X = toLowerCase x"
  proof -
    have "normalizeWord toLowerCase X
            = trim (removeVisarga (anusvaraToMa (removeDandasAndNumbers (toLowerCase X))))"
      using e cX by (rule normalizeWord_commutesAt)
    also have "\<dots> = trim (removeVisarga (anusvaraToMa (removeDandasAndNumbers (toLowerCase x))))"
      by (simp only: l)
    also have "\<dots> = normalizeWord toLowerCase x"
      using e cx by (rule normalizeWord_commutesAt [symmetric])
    also have "\<dots> = normalizeWord toLowerCase (normalizeWord toLowerCase x)"
      using s by (rule idem [symmetric])
    finally show ?thesis .
  qed
  from idem fold show ?thesis by blast
qed

text \<open>Every case table that works code unit by code unit, leaves white space, dandas,
  digits, anusvara, visarga and the two letters of the anusvara replacement alone and
  maps no other unit to one of them satisfies \<open>caseMapping\<close>; the ASCII table does.\<close>

lemma replaceAll_map:
  assumes "\<And>c. (f c = u) = (c = u)" and "map f rep = rep"
  shows "map f (replaceAll u rep s) = replaceAll u rep (map f s)"
  using assms by (induction s) (auto simp: replaceAll_def)

lemma trim_map:
  assumes "\<And>c. isWhiteSpace (f c) = isWhiteSpace c"
  shows "map f (trim s) = trim (map f s)"
proof -
  have "isWhiteSpace \<circ> f = isWhiteSpace" using assms by (simp add: fun_eq_iff)
  then show ?thesis by (simp add: trim_def dropWhile_map rev_map)
qed

lemma unitwise_caseMapping:
  assumes idem: "\<And>c. f (f c) = f c"
    and ws: "\<And>c. isWhiteSpace (f c) = isWhiteSpace c"
    and dn: "\<And>c. (f c = danda) = (c = danda)" "\<And>c. (f c = doubleDanda) = (c = doubleDanda)"
            "\<And>c. isAsciiDigit (f c) = isAsciiDigit c" "\<And>c. isDevanagariDigit (f c) = isDevanagariDigit c"
    and av: "\<And>c. (f c = anusvara) = (c = anusvara)" "\<And>c. (f c = visarga) = (c = visarga)"
    and ma: "f letterMa = letterMa" "f virama = virama"
  shows "caseMapping (map f)"
proof -
  have 1: "\<And>s. map f (map f s) = map f s" by (simp add: idem)
  have 2: "\<And>s. map f (trim s) = trim (map f s)" using ws by (rule trim_map)
  have 3: "\<And>s. map f (removeDandasAndNumbers s) = removeDandasAndNumbers (map f s)"
    by (simp add: removeDandasAndNumbers_def filter_map comp_def dn)
  have 4: "\<And>s. map f (anusvaraToMa s) = anusvaraToMa (map f s)"
    unfolding anusvaraToMa_def by (rule replaceAll_map) (simp_all add: av ma)
  have 5: "\<And>s. map f (removeVisarga s) = removeVisarga (map f s)"
    unfolding removeVisarga_def by (rule replaceAll_map) (simp_all add: av)
  show ?thesis
    unfolding caseMapping_def by (simp only: 1 2 3 4 5) simp
qed

lemma caseMapping_asciiLower: "caseMapping asciiLower"
proof -
  let ?f = "\<lambda>c::nat. if 0x41 \<le> c \<and> c \<le> 0x5A then c + 0x20 else c"
  have "caseMapping (map ?f)"
    by (rule unitwise_caseMapping)
       (auto simp: isWhiteSpace_def danda_def doubleDanda_def isAsciiDigit_def isDevanagariDigit_def
          anusvara_def visarga_def letterMa_def virama_def)
  moreover have "asciiLower = map ?f" by (simp add: fun_eq_iff asciiLower_def)
  ultimately show ?thesis by simp
qed

text \<open>The host's \<^verbatim>\<open>toLowerCase\<close> with its final sigma is \<open>caseStable\<close>, and it is no
  \<open>caseMapping\<close>: what it makes of a capital sigma depends on the units around it, which
  the replacements of \<open>normalizeWord\<close> remove.\<close>

lemma lowerUnit_lowered: "c \<noteq> 0x3A3 \<Longrightarrow> lowered c (lowerUnit c)"
  by (auto simp: lowered_def lowerUnit_def isMark_def isWhiteSpace_def danda_def doubleDanda_def
      isAsciiDigit_def isDevanagariDigit_def anusvara_def visarga_def)

lemma sigma_lowered: "lowered 0x3A3 0x3C2" "lowered 0x3A3 0x3C3"
  by (simp_all add: lowered_def lowerUnit_def isMark_def isWhiteSpace_def danda_def doubleDanda_def
      isAsciiDigit_def isDevanagariDigit_def anusvara_def visarga_def)

lemma lowerFrom_lowered: "list_all2 lowered s (lowerFrom prev s)"
  by (induction s arbitrary: prev) (simp_all add: lowerUnit_lowered sigma_lowered)

lemma lowerFrom_fixed: "list_all (\<lambda>c. c \<noteq> 0x3A3 \<and> lowerUnit c = c) s \<Longrightarrow> lowerFrom prev s = s"
  by (induction s arbitrary: prev) simp_all

lemma lowerFrom_idem: "lowerFrom p (lowerFrom q s) = lowerFrom q s"
proof (rule lowerFrom_fixed)
  have "list_all2 lowered s (lowerFrom q s)" by (rule lowerFrom_lowered)
  then show "list_all (\<lambda>c. c \<noteq> 0x3A3 \<and> lowerUnit c = c) (lowerFrom q s)"
    by (auto simp: list_all_iff list_all2_conv_all_nth in_set_conv_nth lowered_def)
qed

lemma lowered_clean:
  assumes "list_all2 lowered s t" and "trim (removeVisarga (anusvaraToMa (removeDandasAndNumbers s))) = s"
  shows "trim (removeVisarga (anusvaraToMa (removeDandasAndNumbers t))) = t"
proof -
  let ?r = "\<lambda>s. removeVisarga (anusvaraToMa (removeDandasAndNumbers s))"
  have "list_all (\<lambda>c. \<not> isMark c) (trim (?r s))"
    by (rule trim_clean) (rule removeMarks_clean)
  with assms(2) have cs: "list_all (\<lambda>c. \<not> isMark c) s" by simp
  have len: "length t = length s" using assms(1) by (simp add: list_all2_lengthD)
  have nth: "\<And>i. i < length s \<Longrightarrow> lowered (s ! i) (t ! i)"
    using assms(1) by (simp add: list_all2_conv_all_nth)
  have ct: "list_all (\<lambda>c. \<not> isMark c) t"
    unfolding list_all_iff
  proof
    fix c assume "c \<in> set t"
    then obtain i where i: "i < length s" and c: "c = t ! i"
      using len by (auto simp: in_set_conv_nth)
    from i have "s ! i \<in> set s" by simp
    with cs have "\<not> isMark (s ! i)" by (simp add: list_all_iff)
    with nth [OF i] c show "\<not> isMark c" by (simp add: lowered_def)
  qed
  have "trim (trim (?r s)) = trim (?r s)" by (rule trim_trim)
  with assms(2) have ts: "trim s = s" by simp
  have es: "s = [] \<or> (\<not> isWhiteSpace (hd s) \<and> \<not> isWhiteSpace (last s))"
    using trim_ends [of s] ts by simp
  have "t = [] \<or> (\<not> isWhiteSpace (hd t) \<and> \<not> isWhiteSpace (last t))"
  proof (cases "s = []")
    case True
    with len show ?thesis by simp
  next
    case False
    with len have t: "t \<noteq> []" by auto
    from False have 0: "0 < length s" and l: "length s - 1 < length s" by simp_all
    have "lowered (hd s) (hd t)" using nth [OF 0] False t by (simp add: hd_conv_nth)
    moreover have "lowered (last s) (last t)" using nth [OF l] False t len by (simp add: last_conv_nth)
    ultimately show ?thesis using es False by (simp add: lowered_def)
  qed
  then have "trim t = t" by (rule trim_fixed)
  with ct show ?thesis by (simp add: removeMarks_id)
qed

lemma caseStable_greekLowerCase: "caseStable greekLowerCase"
  unfolding caseStable_def greekLowerCase_def
  by (intro conjI allI impI lowerFrom_idem lowered_clean [OF lowerFrom_lowered])

lemma not_caseMapping_greekLowerCase: "\<not> caseMapping greekLowerCase"
proof
  assume "caseMapping greekLowerCase"
  then have "greekLowerCase (removeVisarga (anusvaraToMa (removeDandasAndNumbers [0x391, 0x31, 0x3A3])))
            = removeVisarga (anusvaraToMa (removeDandasAndNumbers (greekLowerCase [0x391, 0x31, 0x3A3])))"
    by (simp only: caseMapping_def)
  then show False
    by (simp add: greekLowerCase_def isCasedLetter_def lowerUnit_def removeVisarga_def anusvaraToMa_def
        removeDandasAndNumbers_def replaceAll_def danda_def doubleDanda_def isAsciiDigit_def
        isDevanagariDigit_def anusvara_def visarga_def)
qed

lemma lowerFrom_map: "0x3A3 \<notin> set s \<Longrightarrow> lowerFrom prev s = map lowerUnit s"
  by (induction s arbitrary: prev) simp_all

lemma set_replaceAll_subset: "set (replaceAll u rep s) \<subseteq> set s \<union> set rep"
  by (induction s) (auto simp: replaceAll_def)

lemma lowerUnit_idem: "lowerUnit (lowerUnit c) = lowerUnit c"
  by (simp add: lowerUnit_def)

lemma lowerUnit_ws: "isWhiteSpace (lowerUnit c) = isWhiteSpace c"
  by (simp add: lowerUnit_def isWhiteSpace_def)

lemma lowerUnit_marks:
  "(lowerUnit c = danda) = (c = danda)" "(lowerUnit c = doubleDanda) = (c = doubleDanda)"
  "isAsciiDigit (lowerUnit c) = isAsciiDigit c" "isDevanagariDigit (lowerUnit c) = isDevanagariDigit c"
  "(lowerUnit c = anusvara) = (c = anusvara)" "(lowerUnit c = visarga) = (c = visarga)"
  by (simp_all add: lowerUnit_def danda_def doubleDanda_def isAsciiDigit_def isDevanagariDigit_def
      anusvara_def visarga_def)

lemma lowerUnit_ma: "lowerUnit letterMa = letterMa" "lowerUnit virama = virama"
  by (simp_all add: lowerUnit_def letterMa_def virama_def)

lemma caseMapping_lowerUnit: "caseMapping (map lowerUnit)"
  by (rule unitwise_caseMapping)
     (simp_all only: lowerUnit_idem lowerUnit_ws lowerUnit_marks lowerUnit_ma)

lemma sigma_not_made:
  assumes "0x3A3 \<notin> set s"
  shows "0x3A3 \<notin> set (trim (removeVisarga (anusvaraToMa (removeDandasAndNumbers s))))"
proof
  assume "0x3A3 \<in> set (trim (removeVisarga (anusvaraToMa (removeDandasAndNumbers s))))"
  then have "0x3A3 \<in> set (removeVisarga (anusvaraToMa (removeDandasAndNumbers s)))"
    using set_trim_subset by (rule rev_subsetD)
  then have "0x3A3 \<in> set (anusvaraToMa (removeDandasAndNumbers s)) \<union> set []"
    unfolding removeVisarga_def using set_replaceAll_subset by (rule rev_subsetD)
  then have "0x3A3 \<in> set (anusvaraToMa (removeDandasAndNumbers s))" by simp
  then have "0x3A3 \<in> set (removeDandasAndNumbers s) \<union> set [letterMa, virama]"
    unfolding anusvaraToMa_def using set_replaceAll_subset by (rule rev_subsetD)
  then have "0x3A3 \<in> set (removeDandasAndNumbers s)"
    by (simp add: letterMa_def virama_def)
  then have "0x3A3 \<in> set s" by (simp add: removeDandasAndNumbers_def)
  with assms show False by simp
qed

lemma greekLowerCase_commutesAt:
  assumes "0x3A3 \<notin> set s"
  shows "commutesAt greekLowerCase s"
proof -
  let ?r = "\<lambda>s. trim (removeVisarga (anusvaraToMa (removeDandasAndNumbers s)))"
  have "lowerFrom False (?r s) = map lowerUnit (?r s)"
    using sigma_not_made [OF assms] by (rule lowerFrom_map)
  then have a: "greekLowerCase (?r s) = map lowerUnit (?r s)"
    by (simp only: greekLowerCase_def)
  have "commutesAt (map lowerUnit) s"
    using caseMapping_lowerUnit by (rule caseMapping_commutesAt)
  then have b: "map lowerUnit (?r s) = ?r (map lowerUnit s)"
    by (simp only: commutesAt_def)
  have "lowerFrom False s = map lowerUnit s" using assms by (rule lowerFrom_map)
  then have c: "greekLowerCase s = map lowerUnit s" by (simp only: greekLowerCase_def)
  from a b have "greekLowerCase (?r s) = ?r (map lowerUnit s)" by (rule trans)
  then have "greekLowerCase (?r s) = ?r (greekLowerCase s)" by (simp only: c)
  then show ?thesis by (simp only: commutesAt_def)
qed

theorem normalizeWord_idempotent_witness:
  "caseStable greekLowerCase
   \<and> normalizeWord greekLowerCase [0x391, 0x31, 0x3A3] = [0x3B1, 0x3C2]
   \<and> normalizeWord greekLowerCase (normalizeWord greekLowerCase [0x391, 0x31, 0x3A3])
        = normalizeWord greekLowerCase [0x391, 0x31, 0x3A3]
   \<and> greekLowerCase [] = []
   \<and> commutesAt greekLowerCase [0x391, 0x31, 0x392] \<and> commutesAt greekLowerCase [0x3B1, 0x31, 0x3B2]
   \<and> greekLowerCase [0x391, 0x31, 0x392] = greekLowerCase [0x3B1, 0x31, 0x3B2]
   \<and> normalizeWord greekLowerCase [0x391, 0x31, 0x392] = [0x3B1, 0x3B2]
   \<and> normalizeWord greekLowerCase [0x391, 0x31, 0x392]
        = normalizeWord greekLowerCase (normalizeWord greekLowerCase [0x3B1, 0x31, 0x3B2])
   \<and> caseMapping asciiLower
   \<and> asciiLower (js ''X'') = asciiLower (js ''x'')
   \<and> normalizeWord asciiLower (js ''X'') = js ''x''
   \<and> normalizeWord asciiLower (js ''X'') = normalizeWord asciiLower (normalizeWord asciiLower (js ''x''))"
proof -
  note defs = normalizeWord_def greekLowerCase_def isCasedLetter_def lowerUnit_def
    removeVisarga_def anusvaraToMa_def removeDandasAndNumbers_def replaceAll_def danda_def
    doubleDanda_def isAsciiDigit_def isDevanagariDigit_def anusvara_def visarga_def trim_def
    isWhiteSpace_def
  have g: "normalizeWord greekLowerCase [0x391, 0x31, 0x3A3] = [0x3B1, 0x3C2]"
    "normalizeWord greekLowerCase [0x391, 0x31, 0x392] = [0x3B1, 0x3B2]"
    by (simp_all add: defs)
  have e: "greekLowerCase [] = []"
    "greekLowerCase [0x391, 0x31, 0x392] = greekLowerCase [0x3B1, 0x31, 0x3B2]"
    by (simp_all add: defs)
  have c: "commutesAt greekLowerCase [0x391, 0x31, 0x392]"
    "commutesAt greekLowerCase [0x3B1, 0x31, 0x3B2]"
    by (simp_all add: commutesAt_def defs)
  note s = caseStable_greekLowerCase
  have 1: "normalizeWord greekLowerCase (normalizeWord greekLowerCase [0x391, 0x31, 0x3A3])
        = normalizeWord greekLowerCase [0x391, 0x31, 0x3A3]"
    using normalizeWord_idempotent [of greekLowerCase "[0x391, 0x31, 0x3A3]"] s by blast
  have 2: "normalizeWord greekLowerCase [0x391, 0x31, 0x392]
        = normalizeWord greekLowerCase (normalizeWord greekLowerCase [0x3B1, 0x31, 0x3B2])"
    using normalizeWord_idempotent [where toLowerCase = greekLowerCase
        and X = "[0x391, 0x31, 0x392]" and x = "[0x3B1, 0x31, 0x3B2]"]
      s e c by blast
  note m = caseMapping_asciiLower
  have a: "asciiLower [] = []" "asciiLower (js ''X'') = asciiLower (js ''x'')"
    "normalizeWord asciiLower (js ''X'') = js ''x''"
    by (simp_all add: asciiLower_def js_def defs)
  have 3: "normalizeWord asciiLower (js ''X'') = normalizeWord asciiLower (normalizeWord asciiLower (js ''x''))"
    using normalizeWord_idempotent [where toLowerCase = asciiLower and X = "js ''X''" and x = "js ''x''"]
      caseMapping_caseStable [OF m] caseMapping_commutesAt [OF m] a(1,2) by blast
  from s g(1) 1 e(1) c e(2) g(2) 2 m a(2,3) 3 show ?thesis by (intro conjI)
qed

text \<open>
  C5 as stated fails for the host's \<^verbatim>\<open>toLowerCase\<close>. \<open>X\<close> is capital alpha, the digit one,
  capital sigma, and \<open>x\<close> its lower-case form: small alpha, the digit one, small sigma
  U+03C3 (the sigma follows a digit). \<open>normalizeWord\<close> removes the digit before it
  lower-cases, so in \<open>X\<close> the sigma then follows a letter and ends the word: normalizing
  \<open>X\<close> gives alpha and the final sigma U+03C2, normalizing \<open>x\<close> twice gives alpha and
  U+03C3.
\<close>

theorem case_insensitive_counterexample:
  "greekLowerCase [0x391, 0x31, 0x3A3] = [0x3B1, 0x31, 0x3C3]
   \<and> normalizeWord greekLowerCase [0x391, 0x31, 0x3A3] = [0x3B1, 0x3C2]
   \<and> normalizeWord greekLowerCase (normalizeWord greekLowerCase [0x3B1, 0x31, 0x3C3]) = [0x3B1, 0x3C3]
   \<and> normalizeWord greekLowerCase [0x391, 0x31, 0x3A3]
       \<noteq> normalizeWord greekLowerCase (normalizeWord greekLowerCase [0x3B1, 0x31, 0x3C3])"
  by (simp add: normalizeWord_def greekLowerCase_def isCasedLetter_def lowerUnit_def
      removeVisarga_def anusvaraToMa_def removeDandasAndNumbers_def replaceAll_def danda_def
      doubleDanda_def isAsciiDigit_def isDevanagariDigit_def anusvara_def visarga_def trim_def
      isWhiteSpace_def)

subsection \<open>The fallback scenario of the specification\<close>

text \<open>The scenario of the specification for the fallback strategy, run through
  \<open>computeDiff\<close>: the first word is marked matching on both sides, the second words
  different, the danda is left alone.\<close>

lemma fallback_scenario:
  "computeDiff asciiLower
     (blankShloka
        \<lparr> source_text := Some ([0x927, 0x930, 0x94D, 0x92E, 0x915, 0x94D, 0x937, 0x947, 0x924, 0x94D, 0x930, 0x947]
             @ [0x20] @ [0x915, 0x941, 0x930, 0x941, 0x915, 0x94D, 0x937, 0x947, 0x924, 0x94D, 0x930, 0x947]
             @ [0x20, 0x964]),
          matched_target_text := Some ([0x927, 0x930, 0x94D, 0x92E, 0x915, 0x94D, 0x937, 0x947, 0x924, 0x94D, 0x930, 0x947]
             @ [0x20] @ [0x938, 0x92E, 0x935, 0x947, 0x924, 0x93E] @ [0x20, 0x964]) \<rparr>)
   = \<lparr> sourceHtml = joinSpace
         [spanMatch [0x927, 0x930, 0x94D, 0x92E, 0x915, 0x94D, 0x937, 0x947, 0x924, 0x94D, 0x930, 0x947],
          spanDifferent [0x915, 0x941, 0x930, 0x941, 0x915, 0x94D, 0x937, 0x947, 0x924, 0x94D, 0x930, 0x947],
          [0x964]],
       targetHtml = joinSpace
         [spanMatch [0x927, 0x930, 0x94D, 0x92E, 0x915, 0x94D, 0x937, 0x947, 0x924, 0x94D, 0x930, 0x947],
          spanDifferent [0x938, 0x92E, 0x935, 0x947, 0x924, 0x93E],
          [0x964]] \<rparr>"
proof -
  let ?d = "[0x927, 0x930, 0x94D, 0x92E, 0x915, 0x94D, 0x937, 0x947, 0x924, 0x94D, 0x930, 0x947] :: jsstring"
  let ?k = "[0x915, 0x941, 0x930, 0x941, 0x915, 0x94D, 0x937, 0x947, 0x924, 0x94D, 0x930, 0x947] :: jsstring"
  let ?s = "[0x938, 0x92E, 0x935, 0x947, 0x924, 0x93E] :: jsstring"
  have ts: "tokenize (?d @ [0x20] @ ?k @ [0x20, 0x964]) = [?d, ?k, [0x964]]"
    by (simp add: tokenize_scanTokens isWhiteSpace_def danda_def doubleDanda_def flush_def)
  have tt: "tokenize (?d @ [0x20] @ ?s @ [0x20, 0x964]) = [?d, ?s, [0x964]]"
    by (simp add: tokenize_scanTokens isWhiteSpace_def danda_def doubleDanda_def flush_def)
  have n: "normalizeWord asciiLower ?d = ?d" "normalizeWord asciiLower ?k = ?k"
    "normalizeWord asciiLower ?s = ?s" "normalizeWord asciiLower [0x964] = []"
    by (simp_all add: normalizeWord_def removeDandasAndNumbers_def anusvaraToMa_def
        removeVisarga_def asciiLower_def trim_def replaceAll_def isWhiteSpace_def
        danda_def doubleDanda_def isAsciiDigit_def isDevanagariDigit_def visarga_def anusvara_def)
  have k: "\<not> isDandaOrNumber ?d" "\<not> isDandaOrNumber ?k" "\<not> isDandaOrNumber ?s"
    "isDandaOrNumber [0x964]"
    by (simp_all add: isDandaOrNumber_def danda_def doubleDanda_def isAsciiDigit_def
        isDevanagariDigit_def)
  show ?thesis
    by (simp add: computeDiff_def metadataAlignment_def blankShloka_def stringOr_def Let_def
        ts tt diffWithLCS_def lcsSourceSpans_def lcsTargetSpans_def highlightBySet_def
        normalizedWordSet_def n k del: joinSpace.simps append.simps)
qed

section \<open>Properties of the hierarchy builder\<close>

subsection \<open>Storing under a key\<close>


lemma list_all_setProp:
  "list_all Q (map snd obj) \<Longrightarrow> Q v \<Longrightarrow> list_all Q (map snd (setProp k v obj))"
  by (induction obj) auto

lemma lookupOr_list_all:
  "list_all Q (map snd obj) \<Longrightarrow> Q fresh \<Longrightarrow> Q (lookupOr obj k fresh)"
  by (auto simp: lookupOr_def list_all_iff split: option.splits dest!: map_of_SomeD)

lemma sum_list_setProp:
  fixes g :: "'a \<Rightarrow> 'b::comm_monoid_add"
  assumes "g fresh = 0"
  shows "sum_list (map g (map snd (setProp k v obj))) + g (lookupOr obj k fresh)
           = sum_list (map g (map snd obj)) + g v"
  using assms
  by (induction obj) (auto simp: lookupOr_def ac_simps split: option.splits)

lemma sum_list_setProp_nat:
  fixes g :: "'a \<Rightarrow> nat"
  assumes "g fresh = 0" and "g v = g (lookupOr obj k fresh) + d"
  shows "sum_list (map g (map snd (setProp k v obj))) = sum_list (map g (map snd obj)) + d"
  using sum_list_setProp [of g fresh k v obj] assms by simp

lemma mset_concat_setProp:
  assumes "f fresh = []" and "mset (f v) = add_mset x (mset (f (lookupOr obj k fresh)))"
  shows "mset (concat (map f (map snd (setProp k v obj))))
           = add_mset x (mset (concat (map f (map snd obj))))"
proof -
  have c: "\<And>h xs. mset (concat (map h xs)) = sum_list (map (\<lambda>y. mset (h y)) xs)"
    by (induct_tac xs) auto
  from sum_list_setProp [of "\<lambda>y. mset (f y)" fresh k v obj] assms
  show ?thesis by (simp add: c comp_def)
qed


subsection \<open>One pass of the loop\<close>

text \<open>The callback either raises the \<^verbatim>\<open>TypeError\<close> (a key that is not an own property is
  a name of \<^verbatim>\<open>Object.prototype\<close>) or returns \<open>addToHierarchy\<close>.\<close>

lemma getProp_cases:
  "getProp obj k = Inherited \<or> (case getProp obj k of Own v \<Rightarrow> v | _ \<Rightarrow> fresh) = lookupOr obj k fresh"
  by (simp add: getProp_def lookupOr_def split: option.splits)


lemma groupStep_eq:
  "groupStep h sh =
     (let parsed = parseSrirangaHierarchy sh;
          pk = orString (parva parsed) (js ''Unknown'');
          uk = orString (upaparva parsed) (js ''Unknown'');
          ak = orString (adhyaya parsed) (js ''Unknown'');
          p = lookupOr h pk (freshParva (orString (parvaName parsed) pk));
          u = lookupOr (upaparvas p) uk (freshUpaparva (orString (upaparvaName parsed) uk))
      in if getProp h pk = Inherited \<or> getProp (upaparvas p) uk = Inherited
            \<or> getProp (adhyayas u) ak = Inherited
         then Inl TypeError else Inr (addToHierarchy sh h))"
  by (simp add: groupStep_def addToHierarchy_def addToParva_def addToUpaparva_def addToAdhyaya_def
      Let_def getProp_def lookupOr_def split: option.splits property.splits)

lemma groupStep_Inr: "groupStep h sh = Inr h' \<Longrightarrow> h' = addToHierarchy sh h"
  by (simp add: groupStep_eq Let_def split: if_splits)


subsection \<open>The counts and the records of a node after a pass\<close>

lemma countShloka_fields:
  "matched (countShloka m st) = matched st + (if m then 1 else 0)"
  "unmatched (countShloka m st) = unmatched st + (if m then 0 else 1)"
  "total (countShloka m st) = total st + 1"
  by (simp_all add: countShloka_def)

lemma sumStats_setProp:
  assumes "st fresh = zeroStats" and "st v = countShloka m (st (lookupOr obj k fresh))"
  shows "sumStats (map st (map snd (setProp k v obj)))
           = countShloka m (sumStats (map st (map snd obj)))"
proof -
  have "sum_list (map (\<lambda>y. matched (st y)) (map snd (setProp k v obj)))
          = sum_list (map (\<lambda>y. matched (st y)) (map snd obj)) + (if m then 1 else 0)"
    by (rule sum_list_setProp_nat [where fresh = fresh]) (simp_all add: assms zeroStats_def countShloka_fields)
  moreover have "sum_list (map (\<lambda>y. unmatched (st y)) (map snd (setProp k v obj)))
          = sum_list (map (\<lambda>y. unmatched (st y)) (map snd obj)) + (if m then 0 else 1)"
    by (rule sum_list_setProp_nat [where fresh = fresh]) (simp_all add: assms zeroStats_def countShloka_fields)
  moreover have "sum_list (map (\<lambda>y. total (st y)) (map snd (setProp k v obj)))
          = sum_list (map (\<lambda>y. total (st y)) (map snd obj)) + 1"
    by (rule sum_list_setProp_nat [where fresh = fresh]) (simp_all add: assms zeroStats_def countShloka_fields)
  ultimately show ?thesis
    by (simp add: sumStats_def countShloka_def comp_def)
qed

lemma leafStats_snoc:
  "leafStats (ss @ [sh]) = countShloka (truthyBool (has_match sh)) (leafStats ss)"
  by (simp add: leafStats_def countShloka_def)

lemma fresh_ok:
  "adhyayaOk (freshAdhyaya nm)" "upaparvaOk (freshUpaparva nm)" "parvaOk (freshParva nm)"
  by (simp_all add: adhyayaOk_def upaparvaOk_def parvaOk_def freshAdhyaya_def freshUpaparva_def
      freshParva_def leafStats_def sumStats_def zeroStats_def)


lemma addToAdhyaya_ok: "adhyayaOk a \<Longrightarrow> adhyayaOk (addToAdhyaya sh a)"
  by (simp add: adhyayaOk_def addToAdhyaya_def leafStats_snoc)

lemma addToUpaparva_ok:
  assumes "upaparvaOk u"
  shows "upaparvaOk (addToUpaparva sh ak nm u)"
proof -
  let ?a = "lookupOr (adhyayas u) ak (freshAdhyaya nm)"
  have "adhyayaOk ?a"
    using assms by (intro lookupOr_list_all [where Q = adhyayaOk]) (simp_all add: upaparvaOk_def fresh_ok)
  then have "list_all adhyayaOk (map snd (setProp ak (addToAdhyaya sh ?a) (adhyayas u)))"
    using assms by (intro list_all_setProp [where Q = adhyayaOk] addToAdhyaya_ok) (simp_all add: upaparvaOk_def)
  moreover have "sumStats (map adhyayaStats (map snd (setProp ak (addToAdhyaya sh ?a) (adhyayas u))))
      = countShloka (truthyBool (has_match sh)) (sumStats (map adhyayaStats (map snd (adhyayas u))))"
    by (rule sumStats_setProp [where fresh = "freshAdhyaya nm"])
       (simp_all add: freshAdhyaya_def addToAdhyaya_def)
  ultimately show ?thesis
    using assms by (simp add: upaparvaOk_def addToUpaparva_def)
qed

lemma addToParva_ok:
  assumes "parvaOk p"
  shows "parvaOk (addToParva sh uk unm ak anm p)"
proof -
  let ?u = "lookupOr (upaparvas p) uk (freshUpaparva unm)"
  have "upaparvaOk ?u"
    using assms by (intro lookupOr_list_all [where Q = upaparvaOk]) (simp_all add: parvaOk_def fresh_ok)
  then have "list_all upaparvaOk (map snd (setProp uk (addToUpaparva sh ak anm ?u) (upaparvas p)))"
    using assms by (intro list_all_setProp [where Q = upaparvaOk] addToUpaparva_ok) (simp_all add: parvaOk_def)
  moreover have "sumStats (map upaparvaStats (map snd (setProp uk (addToUpaparva sh ak anm ?u) (upaparvas p))))
      = countShloka (truthyBool (has_match sh)) (sumStats (map upaparvaStats (map snd (upaparvas p))))"
    by (rule sumStats_setProp [where fresh = "freshUpaparva unm"])
       (simp_all add: freshUpaparva_def addToUpaparva_def)
  ultimately show ?thesis
    using assms by (simp add: parvaOk_def addToParva_def)
qed

lemma addToHierarchy_ok:
  assumes "hierarchyOk h"
  shows "hierarchyOk (addToHierarchy sh h)"
  unfolding hierarchyOk_def addToHierarchy_def Let_def
  using assms
  by (intro list_all_setProp [where Q = parvaOk] addToParva_ok lookupOr_list_all [where Q = parvaOk])
     (simp_all add: hierarchyOk_def fresh_ok)


lemma mset_upaparvaShlokas_add:
  "mset (upaparvaShlokas (addToUpaparva sh ak nm u)) = add_mset sh (mset (upaparvaShlokas u))"
  unfolding upaparvaShlokas_def addToUpaparva_def
  by (simp del: map_map)
     (rule mset_concat_setProp [where fresh = "freshAdhyaya nm"],
      simp_all add: freshAdhyaya_def addToAdhyaya_def)

lemma fresh_shlokas:
  "upaparvaShlokas (freshUpaparva nm) = []" "parvaShlokas (freshParva nm) = []"
  by (simp_all add: upaparvaShlokas_def parvaShlokas_def freshUpaparva_def freshParva_def)

lemma mset_parvaShlokas_add:
  "mset (parvaShlokas (addToParva sh uk unm ak anm p)) = add_mset sh (mset (parvaShlokas p))"
proof -
  have "mset (concat (map upaparvaShlokas (map snd
          (setProp uk (addToUpaparva sh ak anm (lookupOr (upaparvas p) uk (freshUpaparva unm)))
             (upaparvas p)))))
        = add_mset sh (mset (concat (map upaparvaShlokas (map snd (upaparvas p)))))"
    by (rule mset_concat_setProp [where fresh = "freshUpaparva unm"])
       (simp_all only: fresh_shlokas mset_upaparvaShlokas_add)
  then show ?thesis by (simp add: parvaShlokas_def addToParva_def)
qed

lemma concat_upaparvaShlokas:
  "concat (map shlokas (concat (map (\<lambda>u. map snd (adhyayas u)) us))) = concat (map upaparvaShlokas us)"
  by (induction us) (simp_all add: upaparvaShlokas_def)

lemma concat_parvaShlokas:
  "concat (map upaparvaShlokas (concat (map (\<lambda>p. map snd (upaparvas p)) ps))) = concat (map parvaShlokas ps)"
  by (induction ps) (simp_all add: parvaShlokas_def)

lemma allShlokas_parvaShlokas: "allShlokas h = concat (map parvaShlokas (map snd h))"
  by (simp only: allShlokas_def allAdhyayas_def allUpaparvas_def allParvas_def
      concat_upaparvaShlokas concat_parvaShlokas)

lemma mset_allShlokas_add:
  "mset (allShlokas (addToHierarchy sh h)) = add_mset sh (mset (allShlokas h))"
  unfolding allShlokas_parvaShlokas addToHierarchy_def Let_def
  by (rule mset_concat_setProp [where fresh = "freshParva (orString (parvaName (parseSrirangaHierarchy sh)) (orString (parva (parseSrirangaHierarchy sh)) (js ''Unknown'')))"])
     (simp_all only: fresh_shlokas mset_parvaShlokas_add)

subsection \<open>The whole loop\<close>

lemma groupLoop_invariant:
  "groupLoop h ss = Inr h' \<Longrightarrow> hierarchyOk h \<Longrightarrow>
   hierarchyOk h' \<and> mset (allShlokas h') = mset (allShlokas h) + mset ss"
proof (induction ss arbitrary: h)
  case Nil
  then show ?case by simp
next
  case (Cons sh ss)
  from Cons.prems(1) obtain h1 where s: "groupStep h sh = Inr h1" and l: "groupLoop h1 ss = Inr h'"
    by (auto split: sum.splits)
  from s have h1: "h1 = addToHierarchy sh h" by (rule groupStep_Inr)
  with Cons.prems(2) have "hierarchyOk h1" by (simp add: addToHierarchy_ok)
  from Cons.IH [OF l this] h1 show ?case by (simp add: mset_allShlokas_add)
qed




lemma balanced_leafStats: "balanced (leafStats ss)"
  by (simp add: balanced_def leafStats_def sum_length_filter_compl)

lemma balanced_sumStats: "list_all balanced sts \<Longrightarrow> balanced (sumStats sts)"
  by (induction sts) (auto simp: balanced_def sumStats_def)

lemma adhyayaOk_balanced: "adhyayaOk a \<Longrightarrow> balanced (adhyayaStats a)"
  by (simp add: adhyayaOk_def balanced_leafStats)

lemma upaparvaOk_balanced: "upaparvaOk u \<Longrightarrow> balanced (upaparvaStats u)"
  by (auto simp: upaparvaOk_def list_all_iff intro!: balanced_sumStats adhyayaOk_balanced)

lemma parvaOk_balanced: "parvaOk p \<Longrightarrow> balanced (parvaStats p)"
  by (auto simp: parvaOk_def list_all_iff intro!: balanced_sumStats upaparvaOk_balanced)

lemma hierarchyOk_levels:
  assumes "hierarchyOk h"
  shows "list_all parvaOk (allParvas h)" "list_all upaparvaOk (allUpaparvas h)"
    "list_all adhyayaOk (allAdhyayas h)"
proof -
  show 1: "list_all parvaOk (allParvas h)"
    using assms by (simp add: hierarchyOk_def allParvas_def)
  then show 2: "list_all upaparvaOk (allUpaparvas h)"
    by (auto simp: allUpaparvas_def list_all_iff parvaOk_def)
  then show "list_all adhyayaOk (allAdhyayas h)"
    by (auto simp: allAdhyayas_def list_all_iff upaparvaOk_def)
qed

lemma leaf_totals:
  "list_all adhyayaOk as \<Longrightarrow>
   sum_list (map (\<lambda>a. total (adhyayaStats a)) as) = length (concat (map shlokas as))"
  by (induction as) (auto simp: adhyayaOk_def leafStats_def)

subsection \<open>C1: the counts of the hierarchy\<close>

text \<open>The hierarchy of the three example records.\<close>

lemma example_build:
  "groupByHierarchy exampleRecords
   = Inr [(js ''P02'',
           \<lparr> upaparvas =
               [(js ''U01'',
                 \<lparr> adhyayas =
                     [(js ''A001'',
                       \<lparr> shlokas = [blankShloka \<lparr> parva_id := Some (js ''P02''), upaparva_id := Some (js ''U01''),
                                        adhyaya_id := Some (js ''A001''), has_match := Some True \<rparr>],
                         adhyayaStats = \<lparr> matched = 1, unmatched = 0, total = 1 \<rparr>,
                         adhyayaNodeName = js ''A001'' \<rparr>)],
                   upaparvaStats = \<lparr> matched = 1, unmatched = 0, total = 1 \<rparr>,
                   upaparvaNodeName = js ''U01'' \<rparr>)],
             parvaStats = \<lparr> matched = 1, unmatched = 0, total = 1 \<rparr>,
             parvaNodeName = js ''P02'' \<rparr>),
          (js ''P01'',
           \<lparr> upaparvas =
               [(js ''U00'',
                 \<lparr> adhyayas =
                     [(js ''A000'',
                       \<lparr> shlokas = [blankShloka],
                         adhyayaStats = \<lparr> matched = 0, unmatched = 1, total = 1 \<rparr>,
                         adhyayaNodeName = js ''Adhyaya 0'' \<rparr>)],
                   upaparvaStats = \<lparr> matched = 0, unmatched = 1, total = 1 \<rparr>,
                   upaparvaNodeName = js ''Upaparva 0'' \<rparr>),
                (js ''U01'',
                 \<lparr> adhyayas =
                     [(js ''A010'',
                       \<lparr> shlokas = [blankShloka \<lparr> chapter_number := Some 10 \<rparr>],
                         adhyayaStats = \<lparr> matched = 0, unmatched = 1, total = 1 \<rparr>,
                         adhyayaNodeName = js ''Adhyaya 10'' \<rparr>)],
                   upaparvaStats = \<lparr> matched = 0, unmatched = 1, total = 1 \<rparr>,
                   upaparvaNodeName = js ''Upaparva 1'' \<rparr>)],
             parvaStats = \<lparr> matched = 0, unmatched = 2, total = 2 \<rparr>,
             parvaNodeName = js ''Adi Parva'' \<rparr>)]"
  by code_simp


text \<open>
  C1. When \<open>groupByHierarchy\<close> returns a hierarchy, then at every parva, upaparva and
  adhyaya \<^verbatim>\<open>stats.total\<close> is \<^verbatim>\<open>stats.matched + stats.unmatched\<close>; the counts of a parva are
  the sums of the counts of its upaparvas, the counts of an upaparva the sums of the counts
  of its adhyayas, the counts of an adhyaya those of its list of records; and the totals
  of all adhyayas add up to the number of input records. (\<open>hierarchy_build_total\<close> below
  shows when it returns.)
\<close>

theorem hierarchy_counts:
  assumes "groupByHierarchy records = Inr h"
  shows "list_all (\<lambda>p. balanced (parvaStats p)
                    \<and> parvaStats p = sumStats (map upaparvaStats (map snd (upaparvas p))))
           (allParvas h)
       \<and> list_all (\<lambda>u. balanced (upaparvaStats u)
                    \<and> upaparvaStats u = sumStats (map adhyayaStats (map snd (adhyayas u))))
           (allUpaparvas h)
       \<and> list_all (\<lambda>a. balanced (adhyayaStats a) \<and> adhyayaStats a = leafStats (shlokas a))
           (allAdhyayas h)
       \<and> sum_list (map (\<lambda>a. total (adhyayaStats a)) (allAdhyayas h)) = length records"
proof -
  have e: "hierarchyOk []" by (simp add: hierarchyOk_def)
  from groupLoop_invariant [OF assms [unfolded groupByHierarchy_def] e]
  have ok: "hierarchyOk h" and m: "mset (allShlokas h) = mset records"
    by (simp_all add: allShlokas_def allAdhyayas_def allUpaparvas_def allParvas_def)
  note lv = hierarchyOk_levels [OF ok]
  have 1: "list_all (\<lambda>p. balanced (parvaStats p)
                    \<and> parvaStats p = sumStats (map upaparvaStats (map snd (upaparvas p))))
           (allParvas h)"
    using lv(1) by (auto simp: list_all_iff parvaOk_balanced) (simp add: parvaOk_def)
  have 2: "list_all (\<lambda>u. balanced (upaparvaStats u)
                    \<and> upaparvaStats u = sumStats (map adhyayaStats (map snd (adhyayas u))))
           (allUpaparvas h)"
    using lv(2) by (auto simp: list_all_iff upaparvaOk_balanced) (simp add: upaparvaOk_def)
  have 3: "list_all (\<lambda>a. balanced (adhyayaStats a) \<and> adhyayaStats a = leafStats (shlokas a))
           (allAdhyayas h)"
    using lv(3) by (auto simp: list_all_iff adhyayaOk_balanced) (simp add: adhyayaOk_def)
  have "sum_list (map (\<lambda>a. total (adhyayaStats a)) (allAdhyayas h)) = length (allShlokas h)"
    using leaf_totals [OF lv(3)] by (simp add: allShlokas_def)
  also have "\<dots> = size (mset (allShlokas h))" by simp
  also have "\<dots> = length records" by (simp only: m size_mset)
  finally show ?thesis using 1 2 3 by simp
qed

theorem hierarchy_counts_witness:
  "\<exists>h. groupByHierarchy exampleRecords = Inr h
       \<and> list_all (\<lambda>p. balanced (parvaStats p)
                    \<and> parvaStats p = sumStats (map upaparvaStats (map snd (upaparvas p))))
           (allParvas h)
       \<and> list_all (\<lambda>u. balanced (upaparvaStats u)
                    \<and> upaparvaStats u = sumStats (map adhyayaStats (map snd (adhyayas u))))
           (allUpaparvas h)
       \<and> list_all (\<lambda>a. balanced (adhyayaStats a) \<and> adhyayaStats a = leafStats (shlokas a))
           (allAdhyayas h)
       \<and> sum_list (map (\<lambda>a. total (adhyayaStats a)) (allAdhyayas h)) = 3"
proof -
  from example_build obtain h where h: "groupByHierarchy exampleRecords = Inr h" by blast
  have "length exampleRecords = 3" by (simp add: exampleRecords_def)
  with hierarchy_counts [OF h] h show ?thesis by auto
qed

subsection \<open>C6: the build is total, and where a record without placement goes\<close>

lemma decimal_digit: "n < 10 \<Longrightarrow> decimal n = [0x30 + n]"
  by (subst decimal.simps) simp

lemma decimal_more: "\<not> n < 10 \<Longrightarrow> decimal n = decimal (n div 10) @ [0x30 + n mod 10]"
  by (subst decimal.simps) simp








text \<open>Outside the hypothesis of the amended C6: an identifier that is a name of
  \<^verbatim>\<open>Object.prototype\<close> makes the loop read a property of \<^verbatim>\<open>undefined\<close>.\<close>

lemma inherited_key_TypeError:
  "groupByHierarchy
     [blankShloka \<lparr> parva_id := Some (js ''constructor''), upaparva_id := Some (js ''U01''),
        adhyaya_id := Some (js ''A001'') \<rparr>] = Inl TypeError"
  by code_simp




section \<open>Properties of the statistics\<close>

subsection \<open>Rounding to a double\<close>

lemma bitLength_upper: "n < 2 ^ bitLength n"
proof (induction n rule: bitLength.induct)
  case (1 n)
  show ?case
  proof (cases "n = 0")
    case True
    then show ?thesis by simp
  next
    case False
    from "1.IH" [OF False] have "n div 2 < 2 ^ bitLength (n div 2)" .
    then have "n < 2 * 2 ^ bitLength (n div 2)" by linarith
    with False show ?thesis by (subst bitLength.simps) simp
  qed
qed

lemma bitLength_lower: "0 < n \<Longrightarrow> 2 ^ bitLength n \<le> 2 * n"
proof (induction n rule: bitLength.induct)
  case (1 n)
  then have nz: "n \<noteq> 0" by simp
  show ?case
  proof (cases "n div 2 = 0")
    case True
    then have "bitLength (n div 2) = 0" by (subst bitLength.simps) simp
    with nz have "bitLength n = 1" by (subst bitLength.simps) simp
    with "1.prems" show ?thesis by simp
  next
    case False
    then have "0 < n div 2" by simp
    from "1.IH" [OF nz this] have "2 ^ bitLength (n div 2) \<le> 2 * (n div 2)" .
    then have "2 * 2 ^ bitLength (n div 2) \<le> 2 * n" by linarith
    with nz show ?thesis by (subst bitLength.simps) simp
  qed
qed

lemma floorLog2_bounds:
  assumes "0 < x"
  shows "2 powi floorLog2 x \<le> x \<and> x < 2 powi (floorLog2 x + 1)"
proof -
  obtain p q where pq: "quotient_of x = (p, q)" by (cases "quotient_of x")
  then have q: "0 < q" by (rule quotient_of_denom_pos)
  from pq have x: "x = of_int p / of_int q" by (rule quotient_of_div)
  with assms q have p: "0 < p" by (simp add: zero_less_divide_iff)
  define a where "a = bitLength (nat p)"
  define b where "b = bitLength (nat q)"
  have bounds: "\<And>z. 0 < z \<Longrightarrow> (of_int z :: rat) < 2 ^ bitLength (nat z)
                         \<and> (2::rat) ^ bitLength (nat z) \<le> 2 * of_int z"
  proof -
    fix z :: int assume z: "0 < z"
    have "nat z < 2 ^ bitLength (nat z)" by (rule bitLength_upper)
    then have "int (nat z) < int (2 ^ bitLength (nat z))" by (simp only: of_nat_less_iff)
    then have 1: "z < 2 ^ bitLength (nat z)" using z by simp
    have "2 ^ bitLength (nat z) \<le> 2 * nat z" using z by (intro bitLength_lower) simp
    then have "int (2 ^ bitLength (nat z)) \<le> int (2 * nat z)" by (simp only: of_nat_le_iff)
    then have 2: "2 ^ bitLength (nat z) \<le> 2 * z" using z by simp
    from 1 have "(of_int z :: rat) < of_int (2 ^ bitLength (nat z))" by (simp only: of_int_less_iff)
    moreover from 2 have "(of_int (2 ^ bitLength (nat z)) :: rat) \<le> of_int (2 * z)"
      by (simp only: of_int_le_iff)
    ultimately show "(of_int z :: rat) < 2 ^ bitLength (nat z)
                         \<and> (2::rat) ^ bitLength (nat z) \<le> 2 * of_int z"
      by simp
  qed
  have pu: "(of_int p :: rat) < 2 ^ a" and pl: "(2::rat) ^ a \<le> 2 * of_int p"
    using bounds [OF p] by (simp_all add: a_def)
  have qu: "(of_int q :: rat) < 2 ^ b" and ql: "(2::rat) ^ b \<le> 2 * of_int q"
    using bounds [OF q] by (simp_all add: b_def)
  define k where "k = int a - int b"
  have pk: "(2::rat) powi k = 2 ^ a / 2 ^ b"
    unfolding k_def by (simp add: power_int_diff)
  have pk1: "(2::rat) powi (k + 1) = 2 * 2 ^ a / 2 ^ b"
    using pk by (simp add: power_int_add)
  have pkm: "(2::rat) powi (k - 1) = 2 ^ a / (2 * 2 ^ b)"
    using pk by (simp add: power_int_diff)
  have qpos: "(0::rat) < of_int q" using q by simp
  have ppos: "(0::rat) < of_int p" using p by simp
  have up: "x < 2 powi (k + 1)"
  proof -
    have "(of_int p :: rat) * 2 ^ b < 2 ^ a * (2 * of_int q)"
    proof -
      have "(of_int p :: rat) * 2 ^ b < (2::rat) ^ a * 2 ^ b" using pu by simp
      also have "\<dots> \<le> 2 ^ a * (2 * of_int q)" using ql by simp
      finally show ?thesis .
    qed
    then show ?thesis unfolding x pk1 using qpos by (simp add: field_simps)
  qed
  have lo: "2 powi (k - 1) \<le> x"
  proof -
    have "(2::rat) ^ a * of_int q \<le> (2 * of_int p) * (2::rat) ^ b"
    proof -
      have "(2::rat) ^ a * of_int q \<le> (2 * of_int p) * (of_int q :: rat)" using pl qpos by simp
      also have "\<dots> \<le> (2 * of_int p) * 2 ^ b" using qu ppos by simp
      finally show ?thesis .
    qed
    then show ?thesis unfolding x pkm using qpos by (simp add: field_simps)
  qed
  have fl: "floorLog2 x = (if 2 powi k \<le> x then k else k - 1)"
    by (simp add: floorLog2_def pq k_def a_def b_def Let_def)
  show ?thesis
  proof (cases "2 powi k \<le> x")
    case True
    with fl up show ?thesis by simp
  next
    case False
    with fl lo show ?thesis by simp
  qed
qed

lemma floorLog2_unique:
  assumes "2 powi e \<le> x" and "x < 2 powi (e + 1)"
  shows "floorLog2 x = e"
proof -
  have "(0::rat) < 2 powi e" by simp
  with assms(1) have x: "0 < x" by linarith
  note b = floorLog2_bounds [OF x]
  have "\<not> floorLog2 x < e"
  proof
    assume "floorLog2 x < e"
    then have "floorLog2 x + 1 \<le> e" by simp
    then have "(2::rat) powi (floorLog2 x + 1) \<le> 2 powi e" by (intro power_int_increasing) simp_all
    with b assms(1) show False by linarith
  qed
  moreover have "\<not> e < floorLog2 x"
  proof
    assume "e < floorLog2 x"
    then have "e + 1 \<le> floorLog2 x" by simp
    then have "(2::rat) powi (e + 1) \<le> 2 powi floorLog2 x" by (intro power_int_increasing) simp_all
    with b assms(2) show False by linarith
  qed
  ultimately show ?thesis by simp
qed


lemma roundHalfEven_near: "\<bar>of_int (roundHalfEven y) - y\<bar> \<le> 1 / 2"
proof -
  have "of_int \<lfloor>y\<rfloor> \<le> y" "y < of_int \<lfloor>y\<rfloor> + 1" by linarith+
  then show ?thesis by (auto simp: roundHalfEven_def Let_def abs_le_iff)
qed

lemma roundHalfEven_unique:
  assumes "\<bar>y - of_int m\<bar> < 1 / 2"
  shows "roundHalfEven y = m"
proof -
  have "\<bar>of_int (roundHalfEven y) - y\<bar> \<le> 1 / 2" by (rule roundHalfEven_near)
  with assms have "\<bar>(of_int (roundHalfEven y) :: rat) - of_int m\<bar> < 1" by linarith
  then have "\<bar>(of_int (roundHalfEven y - m) :: rat)\<bar> < 1" by simp
  then have "\<bar>roundHalfEven y - m\<bar> < 1" by (metis of_int_abs of_int_less_1_iff)
  then show ?thesis by simp
qed

lemma roundDouble_error:
  assumes "0 < x"
  shows "\<bar>roundDouble x - x\<bar> \<le> x / 2 ^ 53"
proof -
  define e where "e = floorLog2 x"
  define u :: rat where "u = 2 powi (e - 52)"
  define m where "m = roundHalfEven (x / u)"
  have u: "0 < u" by (simp add: u_def)
  have r: "roundDouble x = of_int m * u"
    using assms by (simp add: roundDouble_def Let_def m_def u_def e_def)
  have "\<bar>of_int m - x / u\<bar> \<le> 1 / 2" unfolding m_def by (rule roundHalfEven_near)
  then have "\<bar>of_int m - x / u\<bar> * u \<le> 1 / 2 * u" using u by (intro mult_right_mono) simp_all
  moreover have "\<bar>of_int m - x / u\<bar> * u = \<bar>of_int m * u - x\<bar>"
    using u by (simp add: abs_mult [symmetric] field_simps del: abs_mult)
  ultimately have 1: "\<bar>roundDouble x - x\<bar> \<le> u / 2" by (simp add: r)
  have "(2::rat) powi e \<le> x" unfolding e_def using floorLog2_bounds [OF assms] by blast
  moreover have "(2::rat) powi e = u * 2 ^ 52"
    unfolding u_def by (simp add: power_int_diff)
  ultimately have "u / 2 \<le> x / 2 ^ 53" by (simp add: field_simps)
  with 1 show ?thesis by linarith
qed

lemma roundDouble_certificate:
  assumes "2 powi e \<le> x" and "x < 2 powi (e + 1)" and "\<bar>x / 2 powi (e - 52) - of_int m\<bar> < 1 / 2"
  shows "roundDouble x = of_int m * 2 powi (e - 52)"
proof -
  have "(0::rat) < 2 powi e" by simp
  with assms(1) have x: "0 < x" by linarith
  have "floorLog2 x = e" using assms(1,2) by (rule floorLog2_unique)
  moreover have "roundHalfEven (x / 2 powi (e - 52)) = m" using assms(3) by (rule roundHalfEven_unique)
  ultimately show ?thesis using x by (simp add: roundDouble_def Let_def)
qed

lemma roundDouble_0: "roundDouble 0 = 0"
  by (simp add: roundDouble_def)

lemma percentage_error:
  assumes "0 \<le> q" and "q \<le> 1"
  shows "0 \<le> roundDouble (roundDouble q * 100)
         \<and> \<bar>roundDouble (roundDouble q * 100) - q * 100\<bar> \<le> 1 / 10 ^ 13"
proof (cases "q = 0")
  case True
  then show ?thesis by (simp add: roundDouble_0)
next
  case False
  with assms have q: "0 < q" by simp
  define eps :: rat where "eps = 1 / 2 ^ 53"
  have eps: "0 < eps" "eps < 1" "300 * eps \<le> 1 / 10 ^ 13" by (simp_all add: eps_def)
  have err: "\<And>x. 0 < x \<Longrightarrow> \<bar>roundDouble x - x\<bar> \<le> x * eps"
    using roundDouble_error by (simp add: eps_def)
  define d where "d = roundDouble q"
  define r where "r = roundDouble (d * 100)"
  have e1: "\<bar>d - q\<bar> \<le> q * eps" unfolding d_def using q by (rule err)
  have qe: "q * eps < q * 1" using q eps by (intro mult_strict_left_mono) simp_all
  have qe1: "q * eps \<le> 1 * eps" using assms eps by (intro mult_right_mono) simp_all
  from e1 qe have d: "0 < d" by linarith
  from e1 qe assms(2) have d2: "d \<le> 2" by linarith
  have de: "d * eps \<le> 2 * eps" using d2 eps by (intro mult_right_mono) simp_all
  have de1: "d * eps < d * 1" using d eps by (intro mult_strict_left_mono) simp_all
  have "0 < d * 100" using d by simp
  then have "\<bar>r - d * 100\<bar> \<le> d * 100 * eps" unfolding r_def by (rule err)
  then have e2: "\<bar>r - d * 100\<bar> \<le> 100 * (d * eps)" by (simp add: mult.commute mult.left_commute)
  from e2 de1 d have nn: "0 \<le> r" by linarith
  from e1 e2 de qe1 eps(3) have "\<bar>r - q * 100\<bar> \<le> 1 / 10 ^ 13"
    by linarith
  with nn show ?thesis by (simp add: r_def d_def)
qed


subsection \<open>C7: the counters and the match rate\<close>

lemma tenths_near:
  assumes "0 \<le> x"
  shows "\<bar>of_nat (tenths x) / 10 - x\<bar> \<le> 1 / 20"
proof -
  define r :: rat where "r = of_int \<lfloor>x * 10 + 1 / 2\<rfloor>"
  have nn: "0 \<le> \<lfloor>x * 10 + 1 / 2\<rfloor>" using assms by simp
  have 1: "r \<le> x * 10 + 1 / 2" unfolding r_def by (rule of_int_floor_le)
  have 2: "x * 10 + 1 / 2 < r + 1" unfolding r_def using floor_correct [of "x * 10 + 1 / 2"] by simp
  have e: "(of_nat (tenths x) :: rat) = r"
    using nn by (simp add: tenths_def r_def)
  have "r / 10 - x \<le> 1 / 20" using 1 by linarith
  moreover have "- (r / 10 - x) \<le> 1 / 20" using 2 by linarith
  ultimately show ?thesis unfolding e by (simp only: abs_le_iff)
qed

lemma tenths_bounds:
  assumes "0 \<le> d"
  shows "of_nat (tenths d) \<le> d * 10 + 1 / 2" "d * 10 + 1 / 2 < of_nat (tenths d) + 1"
proof -
  have nn: "0 \<le> \<lfloor>d * 10 + 1 / 2\<rfloor>" using assms by simp
  have e: "(of_nat (tenths d) :: rat) = of_int \<lfloor>d * 10 + 1 / 2\<rfloor>"
    using nn by (simp add: tenths_def)
  show "of_nat (tenths d) \<le> d * 10 + 1 / 2" unfolding e by (rule of_int_floor_le)
  show "d * 10 + 1 / 2 < of_nat (tenths d) + 1"
    unfolding e using floor_correct [of "d * 10 + 1 / 2"] by simp
qed

lemma integer_gap:
  fixes p q :: int and T :: rat
  assumes "of_int p < (of_int q :: rat)"
  shows "(of_int p :: rat) + 1 \<le> of_int q"
proof -
  from assms have "p < q" by (simp only: of_int_less_iff)
  then have "p + 1 \<le> q" by simp
  then have "(of_int (p + 1) :: rat) \<le> of_int q" by (simp only: of_int_le_iff)
  then show ?thesis by simp
qed

lemma nearest_tenth:
  fixes a t :: nat and d :: rat
  assumes t0: "0 < t" and t32: "t < 2 ^ 32" and d0: "0 \<le> d"
    and de: "\<bar>d - of_nat a / of_nat t * 100\<bar> \<le> 1 / 10 ^ 13"
  shows "\<bar>of_nat (tenths d) / 10 - of_nat a / of_nat t * 100\<bar> \<le> (1 / 20 :: rat)"
proof -
  define T :: rat where "T = of_nat t"
  define A :: rat where "A = of_nat a"
  define N :: rat where "N = of_nat (tenths d)"
  define x :: rat where "x = A / T * 100"
  have T0: "0 < T" using t0 by (simp add: T_def)
  have "T < of_nat (2 ^ 32)" unfolding T_def using t32 by (simp only: of_nat_less_iff)
  then have T32: "T < 4294967296" by simp
  have xT: "x * T = 100 * A" using T0 by (simp add: x_def)
  have b1: "N \<le> d * 10 + 1 / 2" and b2: "d * 10 + 1 / 2 < N + 1"
    unfolding N_def using tenths_bounds [OF d0] by simp_all
  have e1: "d \<le> x + 1 / 10 ^ 13" and e2: "x \<le> d + 1 / 10 ^ 13"
    using de unfolding x_def A_def T_def by linarith+
  have Ai: "A = of_int (int a)" and Ti: "T = of_int (int t)" and Ni: "N = of_int (int (tenths d))"
    by (simp_all add: A_def T_def N_def)
  have up: "x * 10 \<le> N + 1 / 2"
  proof (rule ccontr)
    assume "\<not> x * 10 \<le> N + 1 / 2"
    then have "N + 1 / 2 < x * 10" by simp
    then have "(N + 1 / 2) * T < x * 10 * T" using T0 by (simp only: mult_less_cancel_right_pos)
    then have "(2 * N + 1) * T < 2000 * A" using xT by (simp add: algebra_simps)
    then have "(of_int ((2 * int (tenths d) + 1) * int t) :: rat) < of_int (2000 * int a)"
      by (simp add: Ai Ti Ni)
    then have "(of_int ((2 * int (tenths d) + 1) * int t) :: rat) + 1 \<le> of_int (2000 * int a)"
      by (rule integer_gap)
    then have "(2 * N + 1) * T + 1 \<le> 2000 * A" by (simp add: Ai Ti Ni)
    then have g: "(2 * N + 1) * T + 1 \<le> 20 * (x * T)" by (simp add: xT)
    have "x * 10 < N + 1 / 2 + 1 / 10 ^ 12" using e2 b2 by simp
    then have "x * 10 * T < (N + 1 / 2 + 1 / 10 ^ 12) * T"
      using T0 by (simp only: mult_less_cancel_right_pos)
    then have h: "20 * (x * T) < (2 * N + 1) * T + 2 * T / 10 ^ 12" by (simp add: algebra_simps)
    from g h have "1 < 2 * T / 10 ^ 12" by linarith
    with T32 show False by simp
  qed
  have lo: "N - 1 / 2 \<le> x * 10"
  proof (rule ccontr)
    assume "\<not> N - 1 / 2 \<le> x * 10"
    then have "x * 10 < N - 1 / 2" by simp
    then have "x * 10 * T < (N - 1 / 2) * T" using T0 by (simp only: mult_less_cancel_right_pos)
    then have "2000 * A < (2 * N - 1) * T" using xT by (simp add: algebra_simps)
    then have "(of_int (2000 * int a) :: rat) < of_int ((2 * int (tenths d) - 1) * int t)"
      by (simp add: Ai Ti Ni)
    then have "(of_int (2000 * int a) :: rat) + 1 \<le> of_int ((2 * int (tenths d) - 1) * int t)"
      by (rule integer_gap)
    then have "2000 * A + 1 \<le> (2 * N - 1) * T" by (simp add: Ai Ti Ni)
    then have g: "20 * (x * T) + 1 \<le> (2 * N - 1) * T" by (simp add: xT)
    have "N - 1 / 2 \<le> x * 10 + 1 / 10 ^ 12" using e1 b1 by simp
    then have "(N - 1 / 2) * T \<le> (x * 10 + 1 / 10 ^ 12) * T"
      using T0 by (simp only: mult_le_cancel_right_pos)
    then have h: "(2 * N - 1) * T \<le> 20 * (x * T) + 2 * T / 10 ^ 12" by (simp add: algebra_simps)
    from g h have "1 \<le> 2 * T / 10 ^ 12" by linarith
    with T32 show False by simp
  qed
  from up lo have "\<bar>N / 10 - x\<bar> \<le> 1 / 20" by linarith
  then show ?thesis by (simp only: N_def x_def A_def T_def)
qed

lemma roundDouble_half: "roundDouble (1 / 2) = 1 / 2"
  using roundDouble_certificate [of "- 1" "1 / 2" 4503599627370496] by simp

lemma roundDouble_50: "roundDouble 50 = 50"
  using roundDouble_certificate [of 5 50 7036874417766400] by simp

lemma roundDouble_23_80: "roundDouble (23 / 80) = 2589569785738035 / 9007199254740992"
  using roundDouble_certificate [of "- 2" "23 / 80" 5179139571476070] by simp

lemma roundDouble_2875:
  "roundDouble (roundDouble (23 / 80) * 100) = 8092405580431359 / 281474976710656"
proof -
  have "roundDouble (23 / 80) * 100 = 64739244643450875 / 2251799813685248"
    by (simp add: roundDouble_23_80)
  moreover have "roundDouble (64739244643450875 / 2251799813685248)
                   = 8092405580431359 / 281474976710656"
    using roundDouble_certificate [of 4 "64739244643450875 / 2251799813685248" 8092405580431359]
    by simp
  ultimately show ?thesis by (simp only:)
qed

lemma tenths_50: "tenths 50 = 500"
proof -
  have "\<lfloor>(50::rat) * 10 + 1 / 2\<rfloor> = 500" by (rule floor_unique) simp_all
  then show ?thesis by (simp only: tenths_def)
qed

lemma tenths_double_2875: "tenths (8092405580431359 / 281474976710656) = 287"
proof -
  have "\<lfloor>(8092405580431359 / 281474976710656 :: rat) * 10 + 1 / 2\<rfloor> = 287"
    by (rule floor_unique) simp_all
  then show ?thesis by (simp only: tenths_def)
qed

lemma tenths_exact_2875: "tenths (23 / 80 * 100) = 288"
proof -
  have "\<lfloor>(23 / 80 * 100 :: rat) * 10 + 1 / 2\<rfloor> = 288" by (rule floor_unique) simp_all
  then show ?thesis by (simp only: tenths_def)
qed

text \<open>
  C7, as amended. When every record with \<^verbatim>\<open>has_match\<close> carries a similarity (the invariant
  of the data model), \<^verbatim>\<open>highConfidence + partial\<close> is \<^verbatim>\<open>allMatched\<close>. \<^verbatim>\<open>matchRate\<close> is the
  number 0 when there is no record; otherwise it is what \<^verbatim>\<open>toFixed(1)\<close> prints for the
  double \<^verbatim>\<open>(allMatched / total) * 100\<close>: a numeral with one decimal within 0.05 + 10^-13
  of the exact \<open>allMatched / total * 100\<close>, and within 0.05 of it, so a nearest one, for
  fewer than 2^32 records (the bound of an array's length). The two records of the
  scenario give total 2, allMatched 1, unmatched 1, highConfidence 1, partial 0 and the
  match rate \<^verbatim>\<open>50.0\<close>.
\<close>

theorem stats_aggregator:
  "((\<forall>s \<in> set dat. truthyBool (has_match s) \<longrightarrow> similarity s \<noteq> None) \<longrightarrow>
      highConfidence (collectStats dat) + partial (collectStats dat) = allMatched (collectStats dat))
   \<and> (statsTotal (collectStats dat) = 0 \<longrightarrow> matchRate (collectStats dat) = JSNumber 0)
   \<and> (statsTotal (collectStats dat) \<noteq> 0 \<longrightarrow>
        matchRate (collectStats dat)
          = JSString (toFixed1 (roundDouble (roundDouble
              (of_nat (allMatched (collectStats dat)) / of_nat (statsTotal (collectStats dat))) * 100)))
        \<and> (\<exists>n. matchRate (collectStats dat)
                = JSString (decimal (n div 10) @ [0x2E] @ decimal (n mod 10))
           \<and> \<bar>of_nat n / 10
               - (of_nat (allMatched (collectStats dat)) / of_nat (statsTotal (collectStats dat))) * 100\<bar>
               \<le> (1 / 20 + 1 / 10 ^ 13 :: rat)
           \<and> (statsTotal (collectStats dat) < 2 ^ 32 \<longrightarrow>
                \<bar>of_nat n / 10
                  - (of_nat (allMatched (collectStats dat)) / of_nat (statsTotal (collectStats dat))) * 100\<bar>
                  \<le> (1 / 20 :: rat))))
   \<and> collectStats
        [blankShloka \<lparr> source_id := Some (js ''s1''), has_match := Some True,
            similarity := Some (95 / 100), match_corpus := Some (js ''ce'') \<rparr>,
         blankShloka \<lparr> source_id := Some (js ''s2''), has_match := Some False \<rparr>]
       = \<lparr> statsTotal = 2, allMatched = 1, statsUnmatched = 1, highConfidence = 1, partial = 0,
           mndutt = 0, ce = 1, sarit = 0, manyToOne = 0, oneToMany = 0, statsMatched = 1,
           matchRate = JSString (js ''50.0'') \<rparr>"
proof (intro conjI impI)
  assume a: "\<forall>s \<in> set dat. truthyBool (has_match s) \<longrightarrow> similarity s \<noteq> None"
  have "length (filter (\<lambda>s. truthyBool (has_match s) \<and> numberGe (similarity s) (9 / 10)) dat)
        + length (filter (\<lambda>s. truthyBool (has_match s) \<and> numberLt (similarity s) (9 / 10)) dat)
        = length (filter (\<lambda>s. truthyBool (has_match s)) dat)"
    using a by (induction dat) (auto simp: numberGe_def numberLt_def)
  then show "highConfidence (collectStats dat) + partial (collectStats dat) = allMatched (collectStats dat)"
    by (simp add: collectStats_def Let_def)
next
  assume "statsTotal (collectStats dat) = 0"
  then show "matchRate (collectStats dat) = JSNumber 0"
    by (simp add: collectStats_def Let_def)
next
  assume t: "statsTotal (collectStats dat) \<noteq> 0"
  then show "matchRate (collectStats dat)
          = JSString (toFixed1 (roundDouble (roundDouble
              (of_nat (allMatched (collectStats dat)) / of_nat (statsTotal (collectStats dat))) * 100)))"
    by (simp only: collectStats_def Let_def) simp
next
  assume t: "statsTotal (collectStats dat) \<noteq> 0"
  let ?q = "of_nat (allMatched (collectStats dat)) / of_nat (statsTotal (collectStats dat)) :: rat"
  let ?d = "roundDouble (roundDouble ?q * 100)"
  have le: "allMatched (collectStats dat) \<le> statsTotal (collectStats dat)"
    by (simp add: collectStats_def Let_def)
  have q0: "0 \<le> ?q" by simp
  have q1: "?q \<le> 1" using le t by (simp add: field_simps)
  from percentage_error [OF q0 q1]
  have d0: "0 \<le> ?d" and de: "\<bar>?d - ?q * 100\<bar> \<le> 1 / 10 ^ 13" by blast+
  have m: "matchRate (collectStats dat) = JSString (toFixed1 ?d)"
    using t by (simp only: collectStats_def Let_def) simp
  have "\<not> ?d < 0" using d0 by (simp only: not_less)
  then have "toFixed1 ?d = decimal (tenths ?d div 10) @ [0x2E] @ decimal (tenths ?d mod 10)"
    by (simp only: toFixed1_def if_False)
  with m have 1: "matchRate (collectStats dat)
          = JSString (decimal (tenths ?d div 10) @ [0x2E] @ decimal (tenths ?d mod 10))"
    by simp
  have "\<bar>of_nat (tenths ?d) / 10 - ?d\<bar> \<le> 1 / 20" using d0 by (rule tenths_near)
  with de have 2: "\<bar>of_nat (tenths ?d) / 10 - ?q * 100\<bar> \<le> 1 / 20 + 1 / 10 ^ 13" by linarith
  have 3: "statsTotal (collectStats dat) < 2 ^ 32 \<longrightarrow>
             \<bar>of_nat (tenths ?d) / 10 - ?q * 100\<bar> \<le> (1 / 20 :: rat)"
  proof
    assume b: "statsTotal (collectStats dat) < 2 ^ 32"
    from t have p: "0 < statsTotal (collectStats dat)" by simp
    from p b d0 de show "\<bar>of_nat (tenths ?d) / 10 - ?q * 100\<bar> \<le> (1 / 20 :: rat)"
      by (rule nearest_tenth)
  qed
  from 1 2 3
  show "\<exists>n. matchRate (collectStats dat) = JSString (decimal (n div 10) @ [0x2E] @ decimal (n mod 10))
           \<and> \<bar>of_nat n / 10 - ?q * 100\<bar> \<le> (1 / 20 + 1 / 10 ^ 13 :: rat)
           \<and> (statsTotal (collectStats dat) < 2 ^ 32 \<longrightarrow>
                \<bar>of_nat n / 10 - ?q * 100\<bar> \<le> (1 / 20 :: rat))"
    by blast
next
  show "collectStats
        [blankShloka \<lparr> source_id := Some (js ''s1''), has_match := Some True,
            similarity := Some (95 / 100), match_corpus := Some (js ''ce'') \<rparr>,
         blankShloka \<lparr> source_id := Some (js ''s2''), has_match := Some False \<rparr>]
       = \<lparr> statsTotal = 2, allMatched = 1, statsUnmatched = 1, highConfidence = 1, partial = 0,
           mndutt = 0, ce = 1, sarit = 0, manyToOne = 0, oneToMany = 0, statsMatched = 1,
           matchRate = JSString (js ''50.0'') \<rparr>"
    by (simp add: collectStats_def blankShloka_def truthyBool_def numberGe_def numberLt_def js_def
        toFixed1_def decimal_digit decimal_more roundDouble_half roundDouble_50 tenths_50)
qed

theorem stats_aggregator_witness:
  "highConfidence (collectStats scenarioRecords) + partial (collectStats scenarioRecords)
     = allMatched (collectStats scenarioRecords)
   \<and> statsTotal (collectStats []) = 0 \<and> matchRate (collectStats []) = JSNumber 0
   \<and> statsTotal (collectStats scenarioRecords) = 2 \<and> allMatched (collectStats scenarioRecords) = 1
   \<and> (\<exists>n. matchRate (collectStats scenarioRecords)
              = JSString (decimal (n div 10) @ [0x2E] @ decimal (n mod 10))
          \<and> \<bar>of_nat n / 10
              - (of_nat (allMatched (collectStats scenarioRecords))
                 / of_nat (statsTotal (collectStats scenarioRecords))) * 100\<bar>
              \<le> (1 / 20 :: rat))"
proof -
  let ?S = "scenarioRecords"
  have i: "\<forall>s \<in> set ?S. truthyBool (has_match s) \<longrightarrow> similarity s \<noteq> None"
    by (simp add: scenarioRecords_def truthyBool_def del: not_None_eq)
  have z: "statsTotal (collectStats []) = 0" by (simp add: collectStats_def)
  have c: "statsTotal (collectStats ?S) = 2" "allMatched (collectStats ?S) = 1"
    by (simp_all add: collectStats_def scenarioRecords_def truthyBool_def)
  then have n: "statsTotal (collectStats ?S) \<noteq> 0" and b: "statsTotal (collectStats ?S) < 2 ^ 32"
    by simp_all
  from stats_aggregator [of ?S] i
  have 1: "highConfidence (collectStats ?S) + partial (collectStats ?S) = allMatched (collectStats ?S)"
    by blast
  from stats_aggregator [of "[]"] z have 2: "matchRate (collectStats []) = JSNumber 0"
    by blast
  note stats_aggregator [of ?S, THEN conjunct2, THEN conjunct2, THEN conjunct1, THEN mp, OF n,
      THEN conjunct2]
  then obtain k where "matchRate (collectStats ?S) = JSString (decimal (k div 10) @ [0x2E] @ decimal (k mod 10))"
    and "statsTotal (collectStats ?S) < 2 ^ 32 \<longrightarrow>
           \<bar>of_nat k / 10
              - (of_nat (allMatched (collectStats ?S)) / of_nat (statsTotal (collectStats ?S))) * 100\<bar>
              \<le> (1 / 20 :: rat)"
    by blast
  with b have 3: "\<exists>n. matchRate (collectStats ?S) = JSString (decimal (n div 10) @ [0x2E] @ decimal (n mod 10))
          \<and> \<bar>of_nat n / 10
              - (of_nat (allMatched (collectStats ?S)) / of_nat (statsTotal (collectStats ?S))) * 100\<bar>
              \<le> (1 / 20 :: rat)"
    by blast
  from 1 z 2 c 3 show ?thesis by (intro conjI)
qed

text \<open>
  C7 as stated fails where the exact percentage ends in 5 at the second decimal: for 23
  matched records of 80 the exact value is 28.75, which rounds to 28.8, but the double
  \<^verbatim>\<open>(23 / 80) * 100\<close> lies below 28.75 and \<^verbatim>\<open>toFixed(1)\<close> prints 28.7.
\<close>

theorem match_rate_tie_counterexample:
  "statsTotal (collectStats
       (replicate 23 (blankShloka \<lparr> has_match := Some True, similarity := Some (95 / 100) \<rparr>)
        @ replicate 57 (blankShloka \<lparr> has_match := Some False \<rparr>))) = 80
   \<and> allMatched (collectStats
       (replicate 23 (blankShloka \<lparr> has_match := Some True, similarity := Some (95 / 100) \<rparr>)
        @ replicate 57 (blankShloka \<lparr> has_match := Some False \<rparr>))) = 23
   \<and> matchRate (collectStats
       (replicate 23 (blankShloka \<lparr> has_match := Some True, similarity := Some (95 / 100) \<rparr>)
        @ replicate 57 (blankShloka \<lparr> has_match := Some False \<rparr>))) = JSString (js ''28.7'')
   \<and> toFixed1 (23 / 80 * 100) = js ''28.8''"
proof -
  let ?M = "blankShloka \<lparr> has_match := Some True, similarity := Some (95 / 100) \<rparr>"
  let ?U = "blankShloka \<lparr> has_match := Some False \<rparr>"
  let ?X = "replicate 23 ?M @ replicate 57 ?U"
  have c: "length (filter (\<lambda>s. truthyBool (has_match s)) ?X) = 23" "length ?X = 80"
    by (simp_all add: truthyBool_def)
  have r: "toFixed1 (roundDouble (roundDouble (23 / 80) * 100)) = js ''28.7''"
    by (simp add: roundDouble_2875 toFixed1_def tenths_double_2875
        decimal_digit decimal_more js_def)
  have e: "toFixed1 (23 / 80 * 100) = js ''28.8''"
    using tenths_exact_2875 by (simp add: toFixed1_def decimal_digit decimal_more js_def)
  have "matchRate (collectStats ?X) = JSString (js ''28.7'')"
    unfolding collectStats_def Let_def c using r by simp
  moreover have "statsTotal (collectStats ?X) = 80" "allMatched (collectStats ?X) = 23"
    unfolding collectStats_def Let_def c by simp_all
  ultimately show ?thesis using e by simp
qed

text \<open>Outside the data model: a record that has a match and no similarity counts in
  \<^verbatim>\<open>allMatched\<close> and in neither of the other two counters (\<^verbatim>\<open>undefined >= 0.9\<close> and
  \<^verbatim>\<open>undefined < 0.9\<close> are both false).\<close>

lemma stats_without_similarity:
  "allMatched (collectStats [blankShloka \<lparr> source_id := Some (js ''s1''), has_match := Some True \<rparr>]) = 1
   \<and> highConfidence (collectStats [blankShloka \<lparr> source_id := Some (js ''s1''), has_match := Some True \<rparr>]) = 0
   \<and> partial (collectStats [blankShloka \<lparr> source_id := Some (js ''s1''), has_match := Some True \<rparr>]) = 0"
  by (simp add: collectStats_def blankShloka_def truthyBool_def numberGe_def numberLt_def)

end
